theory Spec2Isabelle
  imports Complex_Main "HOL-Library.Word" "HOL-Library.Signed_Division"
begin

unbundle bit_operations_syntax

section \<open>Framebuffer layout helpers of lib/igt_fb.c\<close>

text \<open>
  C values of type \<open>int\<close> and \<open>unsigned\<close> that take part in size arithmetic are 32-bit
  words: addition and multiplication wrap, \<open><\<close> and \<open>div\<close> are the unsigned ones, and the
  conversion between \<open>int\<close> and \<open>unsigned\<close> keeps the bit pattern. Framebuffer modifiers are
  \<open>uint64_t\<close>. The small integers of the format table are \<open>int\<close>.
\<close>

subsection \<open>Outcomes\<close>

text \<open>
  \<open>igt_assert\<close> aborts the test, \<open>igt_require\<close> skips it; neither returns to the caller.
  \<open>Segfault\<close> stands for an access through a null pointer or outside a buffer.
\<close>

datatype error = Assert_Failed | Test_Skipped | Segfault

subsection \<open>Constants declared in headers\<close>

text \<open>
  The fourcc codes and modifiers come from drm_fourcc.h and lib/ioctl_wrappers.h, the
  tiling constants from i915_drm.h and lib/ioctl_wrappers.h.
\<close>

definition fourcc_code :: "char \<Rightarrow> char \<Rightarrow> char \<Rightarrow> char \<Rightarrow> 32 word" where
  "fourcc_code a b c d =
     of_char a OR push_bit 8 (of_char b) OR push_bit 16 (of_char c) OR push_bit 24 (of_char d)"

definition DRM_FORMAT_RGB565 :: "32 word" where
  "DRM_FORMAT_RGB565 = fourcc_code (CHR ''R'') (CHR ''G'') (CHR ''1'') (CHR ''6'')"

definition DRM_FORMAT_XRGB8888 :: "32 word" where
  "DRM_FORMAT_XRGB8888 = fourcc_code (CHR ''X'') (CHR ''R'') (CHR ''2'') (CHR ''4'')"

definition DRM_FORMAT_XRGB2101010 :: "32 word" where
  "DRM_FORMAT_XRGB2101010 = fourcc_code (CHR ''X'') (CHR ''R'') (CHR ''3'') (CHR ''0'')"

definition DRM_FORMAT_ARGB8888 :: "32 word" where
  "DRM_FORMAT_ARGB8888 = fourcc_code (CHR ''A'') (CHR ''R'') (CHR ''2'') (CHR ''4'')"

definition DRM_FORMAT_NV12 :: "32 word" where
  "DRM_FORMAT_NV12 = fourcc_code (CHR ''N'') (CHR ''V'') (CHR ''1'') (CHR ''2'')"

definition fourcc_mod_code :: "64 word \<Rightarrow> 64 word \<Rightarrow> 64 word" where
  "fourcc_mod_code vendor val = push_bit 56 vendor OR (val AND 0x00ffffffffffffff)"

definition DRM_FORMAT_MOD_VENDOR_INTEL :: "64 word" where
  "DRM_FORMAT_MOD_VENDOR_INTEL = 1"

definition LOCAL_DRM_FORMAT_MOD_NONE :: "64 word" where
  "LOCAL_DRM_FORMAT_MOD_NONE = 0"

definition LOCAL_I915_FORMAT_MOD_X_TILED :: "64 word" where
  "LOCAL_I915_FORMAT_MOD_X_TILED = fourcc_mod_code DRM_FORMAT_MOD_VENDOR_INTEL 1"

definition LOCAL_I915_FORMAT_MOD_Y_TILED :: "64 word" where
  "LOCAL_I915_FORMAT_MOD_Y_TILED = fourcc_mod_code DRM_FORMAT_MOD_VENDOR_INTEL 2"

definition LOCAL_I915_FORMAT_MOD_Yf_TILED :: "64 word" where
  "LOCAL_I915_FORMAT_MOD_Yf_TILED = fourcc_mod_code DRM_FORMAT_MOD_VENDOR_INTEL 3"

definition I915_TILING_NONE :: "64 word" where
  "I915_TILING_NONE = 0"

definition I915_TILING_X :: "64 word" where
  "I915_TILING_X = 1"

definition I915_TILING_Y :: "64 word" where
  "I915_TILING_Y = 2"

definition I915_TILING_Yf :: "64 word" where
  "I915_TILING_Yf = 3"

text \<open>
  Modelled from the spec: the macro \<open>ALIGN(v, a)\<close> is defined in lib/igt_aux.h, which is
  not among the sources; the spec calls it "rounded up to tile width". It is the usual
  mask expression \<open>((v) + (a) - 1) & ~((a) - 1)\<close>, evaluated in \<open>unsigned\<close>.
\<close>

definition ALIGN :: "32 word \<Rightarrow> 32 word \<Rightarrow> 32 word" where
  "ALIGN v a = (v + a - 1) AND NOT (a - 1)"

text \<open>The spec's rounding, on the mathematical integers.\<close>

definition round_up :: "nat \<Rightarrow> nat \<Rightarrow> nat" where
  "round_up v a = ((v + a - 1) div a) * a"

subsection \<open>The device\<close>

text \<open>
  What the code asks the device behind the file descriptor: \<open>intel_gen(intel_get_drm_devid(fd))\<close>,
  \<open>IS_915(intel_get_drm_devid(fd))\<close>, whether \<open>igt_require_intel(fd)\<close> lets the test go on,
  and \<open>is_i915_device(fd)\<close>. These live in lib/intel_chipset.h and lib/drmtest.c and are
  parameters here. So are the kernel's answers: \<open>gem_create\<close> maps a size to a buffer
  handle, \<open>kmstest_dumb_create\<close> maps width, height and bpp to a handle, a stride and a
  size, \<open>kms_addfb\<close> maps a buffer handle to a framebuffer id, and \<open>gem_mmap\<close> gives
  the bytes seen through a mapping of a buffer handle of a given size. \<open>fresh_word\<close> is
  what the first 32-bit word of a buffer reads as right after \<open>gem_create\<close>: zero when the
  kernel hands out cleared pages. Their own failures (a failed ioctl) are not modelled.
\<close>

record device =
  intel_gen :: nat
  IS_915 :: bool
  require_intel :: bool
  is_i915_device :: bool
  gem_create :: "32 word \<Rightarrow> 32 word"
  kmstest_dumb_create :: "32 word \<Rightarrow> 32 word \<Rightarrow> int \<Rightarrow> 32 word \<times> 32 word \<times> 32 word"
  kms_addfb :: "32 word \<Rightarrow> 32 word"
  gem_mmap :: "32 word \<Rightarrow> 32 word \<Rightarrow> 8 word list"
  fresh_word :: "32 word"

subsection \<open>The format table\<close>

datatype cairo_format_t =
  CAIRO_FORMAT_RGB16_565 | CAIRO_FORMAT_RGB24 | CAIRO_FORMAT_RGB30 | CAIRO_FORMAT_ARGB32

record format_desc_struct =
  drm_id :: "32 word"
  cairo_id :: cairo_format_t
  name :: string
  bpp :: int
  depth :: int
  planes :: int
  plane_bpp :: "int list"

text \<open>The macro \<open>DF\<close>; members left out of an initialiser are zero in C.\<close>

definition DF :: "32 word \<Rightarrow> cairo_format_t \<Rightarrow> string \<Rightarrow> int \<Rightarrow> int \<Rightarrow> int \<Rightarrow> int list
    \<Rightarrow> format_desc_struct" where
  "DF did cid nm b d p pb =
     \<lparr>drm_id = did, cairo_id = cid, name = nm, bpp = b, depth = d, planes = p,
      plane_bpp = take 4 (pb @ replicate 4 0)\<rparr>"

definition format_desc :: "format_desc_struct list" where
  "format_desc =
     [DF DRM_FORMAT_RGB565 CAIRO_FORMAT_RGB16_565 ''RGB565'' 16 16 0 [],
      DF DRM_FORMAT_XRGB8888 CAIRO_FORMAT_RGB24 ''XRGB8888'' 32 24 0 [],
      DF DRM_FORMAT_XRGB2101010 CAIRO_FORMAT_RGB30 ''XRGB2101010'' 32 30 0 [],
      DF DRM_FORMAT_ARGB8888 CAIRO_FORMAT_ARGB32 ''ARGB8888'' 32 32 0 [],
      DF DRM_FORMAT_NV12 CAIRO_FORMAT_RGB24 ''NV12'' 32 (- 1) 2 [8, 16]]"

definition lookup_drm_format :: "32 word \<Rightarrow> format_desc_struct option" where
  "lookup_drm_format drm_format = find (\<lambda>format. drm_id format = drm_format) format_desc"

subsection \<open>Tile geometry\<close>

definition igt_get_fb_tile_size :: "device \<Rightarrow> 64 word \<Rightarrow> int \<Rightarrow> error + (32 word \<times> 32 word)" where
  "igt_get_fb_tile_size dev tiling fb_bpp =
     (if tiling = LOCAL_DRM_FORMAT_MOD_NONE then Inr (64, 1)
      else if tiling = LOCAL_I915_FORMAT_MOD_X_TILED then
        (if \<not> require_intel dev then Inl Test_Skipped
         else if intel_gen dev = 2 then Inr (128, 16)
         else Inr (512, 8))
      else if tiling = LOCAL_I915_FORMAT_MOD_Y_TILED then
        (if \<not> require_intel dev then Inl Test_Skipped
         else if intel_gen dev = 2 then Inr (128, 16)
         else if IS_915 dev then Inr (512, 8)
         else Inr (128, 32))
      else if tiling = LOCAL_I915_FORMAT_MOD_Yf_TILED then
        (if \<not> require_intel dev then Inl Test_Skipped
         else if fb_bpp = 8 then Inr (64, 64)
         else if fb_bpp = 16 \<or> fb_bpp = 32 then Inr (128, 32)
         else if fb_bpp = 64 \<or> fb_bpp = 128 then Inr (256, 16)
         else Inl Assert_Failed)
      else Inl Assert_Failed)"

subsection \<open>Planes\<close>

definition planar_width :: "format_desc_struct \<Rightarrow> 32 word \<Rightarrow> nat \<Rightarrow> 32 word" where
  "planar_width format width plane =
     (if drm_id format = DRM_FORMAT_NV12 \<and> plane = 1 then (width + 1) div 2 else width)"

definition planar_stride :: "format_desc_struct \<Rightarrow> 32 word \<Rightarrow> nat \<Rightarrow> 32 word" where
  "planar_stride format width plane =
     (let cpp = word_of_int (plane_bpp format ! plane sdiv 8)
      in planar_width format width plane * cpp)"

definition planar_height :: "format_desc_struct \<Rightarrow> 32 word \<Rightarrow> nat \<Rightarrow> 32 word" where
  "planar_height format height plane =
     (if drm_id format = DRM_FORMAT_NV12 \<and> plane = 1 then (height + 1) div 2 else height)"

subsection \<open>Stride and size of a planar format\<close>

text \<open>The first loop of \<open>calc_fb_size_planar\<close>, over the planes still to visit.\<close>

fun planar_stride_loop ::
  "device \<Rightarrow> 32 word \<Rightarrow> format_desc_struct \<Rightarrow> 64 word \<Rightarrow> nat list \<Rightarrow> 32 word \<Rightarrow> error + 32 word" where
  "planar_stride_loop dev width format tiling [] stride = Inr stride"
| "planar_stride_loop dev width format tiling (plane # rest) stride =
     (case igt_get_fb_tile_size dev tiling (plane_bpp format ! plane) of
        Inl e \<Rightarrow> Inl e
      | Inr (tile_width, tile_height) \<Rightarrow>
          (let plane_stride = ALIGN (planar_stride format width plane) tile_width
           in planar_stride_loop dev width format tiling rest
                (if stride < plane_stride then plane_stride else stride)))"

text \<open>
  The second loop: the state is \<open>*size_ret\<close> and the \<open>offsets\<close> array, which is
  \<open>None\<close> when the caller passed a null pointer.
\<close>

fun planar_size_loop ::
  "device \<Rightarrow> 32 word \<Rightarrow> format_desc_struct \<Rightarrow> 64 word \<Rightarrow> 32 word \<Rightarrow> nat list
    \<Rightarrow> 32 word \<times> 32 word list option \<Rightarrow> error + (32 word \<times> 32 word list option)" where
  "planar_size_loop dev height format tiling stride [] st = Inr st"
| "planar_size_loop dev height format tiling stride (plane # rest) (size_ret, offsets) =
     (let offsets' = map_option (\<lambda>offs. offs[plane := size_ret]) offsets
      in case igt_get_fb_tile_size dev tiling (plane_bpp format ! plane) of
           Inl e \<Rightarrow> Inl e
         | Inr (tile_width, tile_height) \<Rightarrow>
             planar_size_loop dev height format tiling stride rest
               (size_ret + stride * ALIGN (planar_height format height plane) tile_height,
                offsets'))"

text \<open>Returns \<open>*size_ret\<close>, \<open>*stride_ret\<close> and the \<open>offsets\<close> array.\<close>

definition calc_fb_size_planar ::
  "device \<Rightarrow> 32 word \<Rightarrow> 32 word \<Rightarrow> format_desc_struct \<Rightarrow> 64 word \<Rightarrow> 32 word list option
    \<Rightarrow> error + (32 word \<times> 32 word \<times> 32 word list option)" where
  "calc_fb_size_planar dev width height format tiling offsets =
     (let n = nat (planes format)
      in case planar_stride_loop dev width format tiling [0..<n] 0 of
           Inl e \<Rightarrow> Inl e
         | Inr stride \<Rightarrow>
             (case planar_size_loop dev height format tiling stride [0..<n] (0, offsets) of
                Inl e \<Rightarrow> Inl e
              | Inr (size_ret, offsets') \<Rightarrow>
                  Inr (size_ret, stride,
                       map_option (\<lambda>offs. fold (\<lambda>plane arr. arr[plane := 0]) [n..<4] offs) offsets')))"

subsection \<open>Stride and size of a packed format\<close>

text \<open>
  The loops \<open>for (x = x0; x < v; x *= 2);\<close> of the legacy path. The comparison is
  unsigned (\<open>x\<close> is \<open>unsigned\<close>, \<open>v\<close> is \<open>int\<close>), and \<open>x *= 2\<close> wraps, so the loop
  need not end: not returning is \<open>None\<close>.
\<close>

partial_function (option) double_until :: "32 word \<Rightarrow> 32 word \<Rightarrow> 32 word option" where
  "double_until x v = (if x < v then double_until (x * 2) v else Some x)"

text \<open>
  Returns \<open>(*size_ret, *stride_ret)\<close>. \<open>width * (format->bpp / 8)\<close> is a signed
  multiplication; it is taken modulo \<open>2 ^ 32\<close> here, although C leaves its overflow undefined.
\<close>

definition calc_fb_size_packed ::
  "device \<Rightarrow> 32 word \<Rightarrow> 32 word \<Rightarrow> format_desc_struct \<Rightarrow> 64 word
    \<Rightarrow> (error + (32 word \<times> 32 word)) option" where
  "calc_fb_size_packed dev width height format tiling =
     (let byte_width = width * word_of_int (bpp format sdiv 8)
      in case igt_get_fb_tile_size dev tiling (bpp format) of
           Inl e \<Rightarrow> Some (Inl e)
         | Inr (tile_width, tile_height) \<Rightarrow>
             if tiling \<noteq> LOCAL_DRM_FORMAT_MOD_NONE \<and> intel_gen dev \<le> 3 then
               (case double_until 512 byte_width of
                  None \<Rightarrow> None
                | Some stride \<Rightarrow>
                    (case double_until (1024 * 1024) (stride * height) of
                       None \<Rightarrow> None
                     | Some sz \<Rightarrow> Some (Inr (sz, stride))))
             else
               (let stride = ALIGN byte_width tile_width;
                    sz = stride * ALIGN height tile_height
                in Some (Inr (sz, stride))))"

definition igt_calc_fb_size ::
  "device \<Rightarrow> 32 word \<Rightarrow> 32 word \<Rightarrow> 32 word \<Rightarrow> 64 word \<Rightarrow> (error + (32 word \<times> 32 word)) option" where
  "igt_calc_fb_size dev width height drm_format tiling =
     (case lookup_drm_format drm_format of
        None \<Rightarrow> Some (Inl Assert_Failed)
      | Some format \<Rightarrow>
          if planes format > 1 then
            (case calc_fb_size_planar dev width height format tiling None of
               Inl e \<Rightarrow> Some (Inl e)
             | Inr (size_ret, stride_ret, offsets) \<Rightarrow> Some (Inr (size_ret, stride_ret)))
          else calc_fb_size_packed dev width height format tiling)"

subsection \<open>Modifier and tiling constants\<close>

definition igt_fb_mod_to_tiling :: "64 word \<Rightarrow> error + 64 word" where
  "igt_fb_mod_to_tiling modifier =
     (if modifier = LOCAL_DRM_FORMAT_MOD_NONE then Inr I915_TILING_NONE
      else if modifier = LOCAL_I915_FORMAT_MOD_X_TILED then Inr I915_TILING_X
      else if modifier = LOCAL_I915_FORMAT_MOD_Y_TILED then Inr I915_TILING_Y
      else if modifier = LOCAL_I915_FORMAT_MOD_Yf_TILED then Inr I915_TILING_Yf
      else Inl Assert_Failed)"

definition igt_fb_tiling_to_mod :: "64 word \<Rightarrow> error + 64 word" where
  "igt_fb_tiling_to_mod tiling =
     (if tiling = I915_TILING_NONE then Inr LOCAL_DRM_FORMAT_MOD_NONE
      else if tiling = I915_TILING_X then Inr LOCAL_I915_FORMAT_MOD_X_TILED
      else if tiling = I915_TILING_Y then Inr LOCAL_I915_FORMAT_MOD_Y_TILED
      else if tiling = I915_TILING_Yf then Inr LOCAL_I915_FORMAT_MOD_Yf_TILED
      else Inl Assert_Failed)"

text \<open>One conversion after the other; an assertion failure of the first one stays.\<close>

definition then_convert :: "(64 word \<Rightarrow> error + 64 word) \<Rightarrow> error + 64 word \<Rightarrow> error + 64 word" where
  "then_convert f r = (case r of Inl e \<Rightarrow> Inl e | Inr v \<Rightarrow> f v)"

subsection \<open>Allocating the buffer object\<close>

text \<open>
  What \<open>create_bo_for_fb\<close> hands back: its return value \<open>bo\<close> and what it stored through
  \<open>size_ret\<close>, \<open>stride_ret\<close>, \<open>offsets\<close> and \<open>is_dumb\<close>.
\<close>

record bo_result =
  bo :: "32 word"
  size_ret :: "32 word"
  stride_ret :: "32 word"
  offsets_ret :: "32 word list option"
  is_dumb_ret :: bool

text \<open>
  \<open>format\<close> and \<open>offsets\<close> are pointers and may be null (\<open>None\<close>). The \<open>memset\<close> of the
  packed branch and the read of \<open>offsets[1]\<close> for NV12 go through \<open>offsets\<close> unguarded.
  \<open>igt_assert(*(uint32_t *)ptr == 0)\<close> reads the first word of the new buffer through its
  mapping, which is \<open>fresh_word\<close> of the device. What the two \<open>memset\<close> calls then write
  into the buffer is not part of what the function hands back.
\<close>

definition create_bo_for_fb ::
  "device \<Rightarrow> 32 word \<Rightarrow> 32 word \<Rightarrow> format_desc_struct option \<Rightarrow> 64 word \<Rightarrow> 32 word \<Rightarrow> 32 word
    \<Rightarrow> 32 word list option \<Rightarrow> (error + bo_result) option" where
  "create_bo_for_fb dev width height format_ptr tiling sz stride offsets =
     (case format_ptr of
        None \<Rightarrow> Some (Inl Assert_Failed)
      | Some format \<Rightarrow>
          if tiling \<noteq> 0 \<or> sz \<noteq> 0 \<or> stride \<noteq> 0 \<or> planes format > 1 then
            (case
               (if planes format > 1 then
                  (case calc_fb_size_planar dev width height format tiling offsets of
                     Inl e \<Rightarrow> Some (Inl e)
                   | Inr r \<Rightarrow> Some (Inr r))
                else
                  (case offsets of
                     None \<Rightarrow> Some (Inl Segfault)
                   | Some offs \<Rightarrow>
                       (case calc_fb_size_packed dev width height format tiling of
                          None \<Rightarrow> None
                        | Some (Inl e) \<Rightarrow> Some (Inl e)
                        | Some (Inr (calculated_size, calculated_stride)) \<Rightarrow>
                            Some (Inr (calculated_size, calculated_stride, Some (replicate 4 0))))))
             of
               None \<Rightarrow> None
             | Some (Inl e) \<Rightarrow> Some (Inl e)
             | Some (Inr (calculated_size, calculated_stride, offsets')) \<Rightarrow>
                 (let stride' = (if stride = 0 then calculated_stride else stride);
                      sz' = (if sz = 0 then calculated_size else sz)
                  in if is_i915_device dev then
                       (case igt_fb_mod_to_tiling tiling of
                          Inl e \<Rightarrow> Some (Inl e)
                        | Inr obj_tiling \<Rightarrow>
                            if fresh_word dev \<noteq> 0 then Some (Inl Assert_Failed)
                            else if drm_id format = DRM_FORMAT_NV12 \<and> offsets' = None
                            then Some (Inl Segfault)
                            else Some (Inr \<lparr>bo = gem_create dev sz', size_ret = sz',
                                   stride_ret = stride', offsets_ret = offsets',
                                   is_dumb_ret = False\<rparr>))
                     else Some (Inl Test_Skipped)))
          else
            (case kmstest_dumb_create dev width height (bpp format) of
               (handle, dumb_stride, dumb_size) \<Rightarrow>
                 Some (Inr \<lparr>bo = handle, size_ret = dumb_size, stride_ret = dumb_stride,
                        offsets_ret = offsets, is_dumb_ret = True\<rparr>)))"

subsection \<open>Creating the framebuffer\<close>

text \<open>The members of \<open>struct igt_fb\<close> that \<open>igt_create_fb_with_bo_size\<close> fills in.\<close>

record igt_fb =
  fb_id :: "32 word"
  fb_gem_handle :: "32 word"
  fb_is_dumb :: bool
  fb_drm_format :: "32 word"
  fb_width :: "32 word"
  fb_height :: "32 word"
  fb_stride :: "32 word"
  fb_tiling :: "64 word"
  fb_size :: "32 word"
  fb_num_planes :: int
  fb_plane_bpp :: "int list"
  fb_plane_width :: "32 word list"
  fb_plane_height :: "32 word list"
  fb_offsets :: "32 word list"

text \<open>
  \<open>memset(fb, 0, sizeof(*fb))\<close> clears the four-element arrays before \<open>fb->offsets\<close> is
  passed on, so the pointer handed to \<open>create_bo_for_fb\<close> is never null.
\<close>

definition igt_create_fb_with_bo_size ::
  "device \<Rightarrow> 32 word \<Rightarrow> 32 word \<Rightarrow> 32 word \<Rightarrow> 64 word \<Rightarrow> 32 word \<Rightarrow> 32 word
    \<Rightarrow> (error + igt_fb) option" where
  "igt_create_fb_with_bo_size dev width height format tiling bo_size bo_stride =
     (case lookup_drm_format format of
        None \<Rightarrow> Some (Inl Assert_Failed)
      | Some f \<Rightarrow>
          (case create_bo_for_fb dev width height (Some f) tiling bo_size bo_stride
                  (Some (replicate 4 0)) of
             None \<Rightarrow> None
           | Some (Inl e) \<Rightarrow> Some (Inl e)
           | Some (Inr r) \<Rightarrow>
               if bo r = 0 then Some (Inl Assert_Failed)
               else
                 (let n = nat (planes f)
                  in Some (Inr \<lparr>fb_id = kms_addfb dev (bo r),
                       fb_gem_handle = bo r,
                       fb_is_dumb = is_dumb_ret r,
                       fb_drm_format = format,
                       fb_width = width,
                       fb_height = height,
                       fb_stride = stride_ret r,
                       fb_tiling = tiling,
                       fb_size = size_ret r,
                       fb_num_planes = (if planes f \<noteq> 0 then planes f else 1),
                       fb_plane_bpp =
                         fold (\<lambda>i arr. arr[i := plane_bpp f ! i]) [0..<n]
                           ((replicate 4 0)[0 := bpp f]),
                       fb_plane_width =
                         fold (\<lambda>i arr. arr[i := planar_width f width i]) [0..<n]
                           ((replicate 4 0)[0 := width]),
                       fb_plane_height =
                         fold (\<lambda>i arr. arr[i := planar_height f height i]) [0..<n]
                           ((replicate 4 0)[0 := height]),
                       fb_offsets =
                         (case offsets_ret r of None \<Rightarrow> replicate 4 0 | Some offs \<Rightarrow> offs)\<rparr>))))"

subsection \<open>Pixel conversion\<close>

text \<open>
  Single-precision arithmetic is a parameter: a type \<open>'f\<close> of \<open>float\<close> values with the
  operations the conversions use. \<open>f_lit\<close> is a literal (\<open>1.164f\<close>, or an \<open>int\<close> constant
  converted to \<open>float\<close>), \<open>f_of_u8\<close> is a \<open>uint8_t\<close> operand converted to \<open>float\<close>,
  \<open>f_to_u8\<close> is the cast \<open>(uint8_t)\<close>.
\<close>

type_synonym u8 = "8 word"

record 'f float_ops =
  f_lit :: "rat \<Rightarrow> 'f"
  f_of_u8 :: "u8 \<Rightarrow> 'f"
  f_add :: "'f \<Rightarrow> 'f \<Rightarrow> 'f"
  f_sub :: "'f \<Rightarrow> 'f \<Rightarrow> 'f"
  f_mul :: "'f \<Rightarrow> 'f \<Rightarrow> 'f"
  f_div :: "'f \<Rightarrow> 'f \<Rightarrow> 'f"
  f_less :: "'f \<Rightarrow> 'f \<Rightarrow> bool"
  f_to_u8 :: "'f \<Rightarrow> u8"

definition clamprgb :: "'f float_ops \<Rightarrow> 'f \<Rightarrow> u8" where
  "clamprgb fl val =
     (if f_less fl val (f_lit fl 0) then 0
      else if f_less fl (f_lit fl 255) val then 255
      else f_to_u8 fl val)"








text \<open>
  Memory is a list of bytes; a pointer into it is an index. An access outside the list
  is the error \<open>Segfault\<close>.
\<close>

definition load :: "u8 list \<Rightarrow> nat \<Rightarrow> error + u8" where
  "load mem i = (if i < length mem then Inr (mem ! i) else Inl Segfault)"

definition store :: "u8 list \<Rightarrow> nat \<Rightarrow> u8 \<Rightarrow> error + u8 list" where
  "store mem i v = (if i < length mem then Inr (mem[i := v]) else Inl Segfault)"

definition and_then :: "error + 'a \<Rightarrow> ('a \<Rightarrow> error + 'b) \<Rightarrow> error + 'b" where
  "and_then r f = (case r of Inl e \<Rightarrow> Inl e | Inr v \<Rightarrow> f v)"

text \<open>A counted loop whose body may fail.\<close>

primrec for_each :: "('i \<Rightarrow> 's \<Rightarrow> error + 's) \<Rightarrow> 'i list \<Rightarrow> 's \<Rightarrow> error + 's" where
  "for_each body [] s = Inr s"
| "for_each body (i # rest) s =
     (case body i s of Inl e \<Rightarrow> Inl e | Inr s' \<Rightarrow> for_each body rest s')"

text \<open>
  The members of \<open>struct fb_convert_blit_upload\<close> that the conversions use: the packed
  view \<open>rgb24\<close> and the linear planar view \<open>linear\<close>, each with the bytes of its mapping.
\<close>

record fb_convert_blit_upload =
  rgb24_map :: "u8 list"
  rgb24_stride :: "32 word"
  rgb24_size :: "32 word"
  linear_handle :: "32 word"
  linear_map :: "u8 list"
  linear_stride :: "32 word"
  linear_size :: "32 word"
  linear_offsets :: "32 word list"

text \<open>The colour terms of the decoder.\<close>

definition nv12_luma :: "'f float_ops \<Rightarrow> u8 \<Rightarrow> 'f" where
  "nv12_luma fl yb = f_mul fl (f_lit fl 1.164) (f_sub fl (f_of_u8 fl yb) (f_lit fl 16))"

definition nv12_chroma :: "'f float_ops \<Rightarrow> u8 \<Rightarrow> 'f" where
  "nv12_chroma fl cb = f_sub fl (f_of_u8 fl cb) (f_lit fl 128)"

definition nv12_r :: "'f float_ops \<Rightarrow> 'f \<Rightarrow> 'f \<Rightarrow> 'f" where
  "nv12_r fl cb cr = f_add fl (f_mul fl (f_lit fl 0.000) cb) (f_mul fl (f_lit fl 1.793) cr)"

definition nv12_g :: "'f float_ops \<Rightarrow> 'f \<Rightarrow> 'f \<Rightarrow> 'f" where
  "nv12_g fl cb cr = f_add fl (f_mul fl (f_lit fl (- 0.213)) cb) (f_mul fl (f_lit fl (- 0.533)) cr)"

definition nv12_b :: "'f float_ops \<Rightarrow> 'f \<Rightarrow> 'f \<Rightarrow> 'f" where
  "nv12_b fl cb cr = f_add fl (f_mul fl (f_lit fl 2.112) cb) (f_mul fl (f_lit fl 0.000) cr)"

text \<open>
  The body of the inner loop of \<open>convert_nv12_to_rgb24\<close>: the pixels of column \<open>j\<close> in
  two rows. \<open>buf\<close> is the copy of the planar buffer, \<open>y\<close> and \<open>uv\<close> point into it,
  \<open>rgb24\<close> points into the packed memory \<open>mem\<close>; \<open>pstride\<close> and \<open>rstride\<close> are the
  source's \<open>planar_stride\<close> and \<open>rgb24_stride\<close>. An index that adds an \<open>unsigned\<close>
  stride is computed in \<open>unsigned\<close>.
\<close>

definition nv12_to_rgb24_block ::
  "'f float_ops \<Rightarrow> u8 list \<Rightarrow> nat \<Rightarrow> nat \<Rightarrow> 32 word \<Rightarrow> nat \<Rightarrow> 32 word \<Rightarrow> nat \<Rightarrow> u8 list
    \<Rightarrow> error + u8 list" where
  "nv12_to_rgb24_block fl buf y uv pstride rgb24 rstride j mem =
     and_then (load buf (y + j)) (\<lambda>yj.
     and_then (load buf (y + unat (word_of_nat j + pstride))) (\<lambda>yj'.
     and_then (load buf (uv + nat (int j AND NOT 1))) (\<lambda>cbb.
     and_then (load buf (uv + nat (int j OR 1))) (\<lambda>crb.
       let y0 = nv12_luma fl yj;
           y1 = nv12_luma fl yj';
           cb = nv12_chroma fl cbb;
           cr = nv12_chroma fl crb;
           r' = nv12_r fl cb cr;
           g' = nv12_g fl cb cr;
           b' = nv12_b fl cb cr
       in
     and_then (store mem (rgb24 + (j * 4 + 2)) (clamprgb fl (f_add fl y0 r'))) (\<lambda>mem.
     and_then (store mem (rgb24 + unat (word_of_nat (j * 4 + 2) + rstride))
                 (clamprgb fl (f_add fl y1 r'))) (\<lambda>mem.
     and_then (store mem (rgb24 + (j * 4 + 1)) (clamprgb fl (f_add fl y0 g'))) (\<lambda>mem.
     and_then (store mem (rgb24 + unat (word_of_nat (j * 4 + 1) + rstride))
                 (clamprgb fl (f_add fl y1 g'))) (\<lambda>mem.
     and_then (store mem (rgb24 + j * 4) (clamprgb fl (f_add fl y0 b'))) (\<lambda>mem.
     store mem (rgb24 + unat (word_of_nat (j * 4) + rstride))
       (clamprgb fl (f_add fl y1 b')))))))))))"

text \<open>The body of the loop over the last row of an odd height.\<close>

definition nv12_to_rgb24_last ::
  "'f float_ops \<Rightarrow> u8 list \<Rightarrow> nat \<Rightarrow> nat \<Rightarrow> nat \<Rightarrow> nat \<Rightarrow> u8 list \<Rightarrow> error + u8 list" where
  "nv12_to_rgb24_last fl buf y uv rgb24 j mem =
     and_then (load buf (uv + nat (int j AND NOT 1))) (\<lambda>cbb.
     and_then (load buf (uv + nat (int j OR 1))) (\<lambda>crb.
     and_then (load buf (y + j)) (\<lambda>yj.
       let cb = nv12_chroma fl cbb;
           cr = nv12_chroma fl crb;
           y0 = nv12_luma fl yj;
           r' = nv12_r fl cb cr;
           g' = nv12_g fl cb cr;
           b' = nv12_b fl cb cr
       in
     and_then (store mem (rgb24 + (j * 4 + 2)) (clamprgb fl (f_add fl y0 r'))) (\<lambda>mem.
     and_then (store mem (rgb24 + (j * 4 + 1)) (clamprgb fl (f_add fl y0 g'))) (\<lambda>mem.
     store mem (rgb24 + j * 4) (clamprgb fl (f_add fl y0 b')))))))"

text \<open>
  One turn of the outer loop: the state is the packed memory and the three pointers
  \<open>rgb24\<close>, \<open>y\<close> and \<open>uv\<close>.
\<close>

definition nv12_to_rgb24_rows ::
  "'f float_ops \<Rightarrow> u8 list \<Rightarrow> 32 word \<Rightarrow> 32 word \<Rightarrow> nat \<Rightarrow> nat \<Rightarrow> u8 list \<times> nat \<times> nat \<times> nat
    \<Rightarrow> error + (u8 list \<times> nat \<times> nat \<times> nat)" where
  "nv12_to_rgb24_rows fl buf pstride rstride w i st =
     (case st of (mem, rgb24, y, uv) \<Rightarrow>
        (case for_each (nv12_to_rgb24_block fl buf y uv pstride rgb24 rstride)
                [0..<w] mem of
           Inl e \<Rightarrow> Inl e
         | Inr mem' \<Rightarrow>
             Inr (mem', rgb24 + unat (2 * rstride), y + unat (2 * pstride),
                  uv + unat pstride)))"

text \<open>
  Returns the bytes of \<open>blit->rgb24.map\<close> after the conversion. \<open>memcpy\<close> reads
  \<open>linear.size\<close> bytes of the mapping. The loop bounds are signed: \<open>fb->width\<close> and
  \<open>fb->height\<close> are \<open>int\<close>.
\<close>

definition convert_nv12_to_rgb24 ::
  "'f float_ops \<Rightarrow> igt_fb \<Rightarrow> fb_convert_blit_upload \<Rightarrow> error + u8 list" where
  "convert_nv12_to_rgb24 fl fb blit =
     (if length (linear_map blit) < unat (linear_size blit) then Inl Segfault
      else
        (let buf = take (unat (linear_size blit)) (linear_map blit);
             y = unat (linear_offsets blit ! 0);
             uv = unat (linear_offsets blit ! 1);
             w = nat (sint (fb_width fb))
         in case for_each
                   (nv12_to_rgb24_rows fl buf (linear_stride blit) (rgb24_stride blit) w)
                   [0..<nat (sint (fb_height fb) sdiv 2)] (rgb24_map blit, 0, y, uv) of
              Inl e \<Rightarrow> Inl e
            | Inr (mem, rgb24, y', uv') \<Rightarrow>
                if fb_height fb AND 1 \<noteq> 0
                then for_each (nv12_to_rgb24_last fl buf y' uv' rgb24) [0..<w] mem
                else Inr mem))"









text \<open>
  \<open>setup_linear_mapping\<close>: a linear buffer of the same format is allocated and the
  planes are copied into it by the blitter; what the CPU then sees through the mapping is
  \<open>gem_mmap dev handle size\<close>.
\<close>

definition setup_linear_mapping ::
  "device \<Rightarrow> igt_fb \<Rightarrow> fb_convert_blit_upload \<Rightarrow> (error + fb_convert_blit_upload) option" where
  "setup_linear_mapping dev fb blit =
     (case igt_fb_mod_to_tiling (fb_tiling fb) of
        Inl e \<Rightarrow> Some (Inl e)
      | Inr obj_tiling \<Rightarrow>
          (case create_bo_for_fb dev (fb_width fb) (fb_height fb)
                  (lookup_drm_format (fb_drm_format fb)) LOCAL_DRM_FORMAT_MOD_NONE 0 0
                  (Some (linear_offsets blit)) of
             None \<Rightarrow> None
           | Some (Inl e) \<Rightarrow> Some (Inl e)
           | Some (Inr r) \<Rightarrow>
               if bo r = 0 then Some (Inl Assert_Failed)
               else Some (Inr (blit\<lparr>linear_handle := bo r,
                      linear_size := size_ret r,
                      linear_stride := stride_ret r,
                      linear_offsets :=
                        (case offsets_ret r of None \<Rightarrow> linear_offsets blit | Some offs \<Rightarrow> offs),
                      linear_map := gem_mmap dev (bo r) (size_ret r)\<rparr>))))"

text \<open>
  \<open>create_cairo_surface__convert\<close>, up to and including the decoding. The fields of
  the freshly allocated \<open>blit\<close> are whatever \<open>blit0\<close> holds. \<open>pagesize\<close> is
  \<open>sysconf(_SC_PAGESIZE)\<close>. \<open>mmap\<close> fails with \<open>EINVAL\<close> when the length is 0, and then
  \<open>igt_assert(blit->rgb24.map != MAP_FAILED)\<close> fails; otherwise the anonymous mapping is
  zero-filled. \<open>gem_mmap__gtt\<close> never returns a null pointer, so
  \<open>igt_assert(blit->linear.map)\<close> holds. Modelled from the spec: \<open>ALIGN\<close> with a \<open>long\<close>
  alignment rounds up in \<open>long\<close> before the result is stored in an \<open>unsigned\<close>.
\<close>

definition create_cairo_surface__convert ::
  "'f float_ops \<Rightarrow> device \<Rightarrow> nat \<Rightarrow> fb_convert_blit_upload \<Rightarrow> igt_fb
    \<Rightarrow> (error + fb_convert_blit_upload) option" where
  "create_cairo_surface__convert fl dev pagesize blit0 fb =
     (let stride = ALIGN (fb_width fb * 4) 16;
          sz = word_of_nat (round_up (unat (stride * fb_height fb)) pagesize);
          blit = blit0\<lparr>rgb24_stride := stride, rgb24_size := sz,
                   rgb24_map := replicate (unat sz) 0\<rparr>
      in if sz = 0 then Some (Inl Assert_Failed)
         else
           (case
              (if fb_tiling fb = LOCAL_I915_FORMAT_MOD_Y_TILED
                  \<or> fb_tiling fb = LOCAL_I915_FORMAT_MOD_Yf_TILED
               then setup_linear_mapping dev fb blit
               else Some (Inr (blit\<lparr>linear_handle := 0,
                      linear_map := gem_mmap dev (fb_gem_handle fb) (fb_size fb),
                      linear_stride := fb_stride fb,
                      linear_size := fb_size fb,
                      linear_offsets := fb_offsets fb\<rparr>)))
            of
              None \<Rightarrow> None
            | Some (Inl e) \<Rightarrow> Some (Inl e)
            | Some (Inr blit') \<Rightarrow>
                if fb_drm_format fb \<noteq> DRM_FORMAT_NV12 then Some (Inl Assert_Failed)
                else
                  (case convert_nv12_to_rgb24 fl fb blit' of
                     Inl e \<Rightarrow> Some (Inl e)
                   | Inr mem \<Rightarrow> Some (Inr (blit'\<lparr>rgb24_map := mem\<rparr>)))))"



text \<open>A generation-3 Intel device and a current one, to evaluate the functions on.\<close>

definition gen3_device :: device where
  "gen3_device =
     \<lparr>intel_gen = 3, IS_915 = False, require_intel = True, is_i915_device = True,
      gem_create = (\<lambda>sz. 1), kmstest_dumb_create = (\<lambda>w h b. (1, w * word_of_int (b sdiv 8), 0)),
      kms_addfb = (\<lambda>handle. 1), gem_mmap = (\<lambda>handle sz. replicate (unat sz) 0),
      fresh_word = 0\<rparr>"

definition gen9_device :: device where
  "gen9_device = gen3_device\<lparr>intel_gen := 9\<rparr>"

subsection \<open>Notions used to state the properties\<close>

text \<open>
  \<open>r\<close> is the smallest power of two that is at least \<open>lo\<close> and at least \<open>v\<close>.
\<close>

definition is_smallest_pow2 :: "nat \<Rightarrow> nat \<Rightarrow> nat \<Rightarrow> bool" where
  "is_smallest_pow2 lo v r \<longleftrightarrow>
     (\<exists>j. r = 2 ^ j) \<and> lo \<le> r \<and> v \<le> r \<and> (\<forall>i. lo \<le> 2 ^ i \<and> v \<le> 2 ^ i \<longrightarrow> r \<le> 2 ^ i)"

text \<open>
  A state of a doubling loop from which it cannot stop: the bound is above \<open>2 ^ 31\<close> and
  the counter is zero or a power of two.
\<close>

definition runaway :: "32 word \<Rightarrow> 32 word \<Rightarrow> bool" where
  "runaway x v \<longleftrightarrow> 2 ^ 31 < unat v \<and> (x = 0 \<or> (\<exists>k\<le>31. x = 2 ^ k))"

text \<open>The table entry of XRGB8888.\<close>

definition xrgb8888_desc :: format_desc_struct where
  "xrgb8888_desc = DF DRM_FORMAT_XRGB8888 CAIRO_FORMAT_RGB24 ''XRGB8888'' 32 24 0 []"

text \<open>The table entry of NV12.\<close>

definition nv12_desc :: format_desc_struct where
  "nv12_desc = DF DRM_FORMAT_NV12 CAIRO_FORMAT_RGB24 ''NV12'' 32 (- 1) 2 [8, 16]"

text \<open>
  Width in bytes and number of rows of the planes of NV12: one byte per luma sample,
  two bytes per chroma pair, the chroma plane half as wide and half as high, rounded up.
\<close>

definition nv12_plane_bytes :: "nat \<Rightarrow> nat \<Rightarrow> nat" where
  "nv12_plane_bytes w plane = (if plane = 1 then (w + 1) div 2 * 2 else w)"

definition nv12_plane_rows :: "nat \<Rightarrow> nat \<Rightarrow> nat" where
  "nv12_plane_rows h plane = (if plane = 1 then (h + 1) div 2 else h)"

text \<open>
  What the decoder stores for one sample: channel 0 is blue, 1 green, 2 red, computed
  from the luma byte and the two chroma bytes.
\<close>

definition nv12_pixel :: "'f float_ops \<Rightarrow> u8 \<Rightarrow> u8 \<Rightarrow> u8 \<Rightarrow> nat \<Rightarrow> u8" where
  "nv12_pixel fl yb cbb crb c =
     (let y0 = nv12_luma fl yb; cb = nv12_chroma fl cbb; cr = nv12_chroma fl crb
      in clamprgb fl (f_add fl y0
           (if c = 2 then nv12_r fl cb cr else if c = 1 then nv12_g fl cb cr
            else nv12_b fl cb cr)))"

text \<open>
  The same for column \<open>j\<close> of a row whose luma starts at \<open>Y\<close> and whose chroma row
  starts at \<open>U\<close>: a chroma pair serves two neighbouring columns.
\<close>

definition nv12_px :: "'f float_ops \<Rightarrow> u8 list \<Rightarrow> nat \<Rightarrow> nat \<Rightarrow> nat \<Rightarrow> nat \<Rightarrow> u8" where
  "nv12_px fl buf Y U j c =
     nv12_pixel fl (buf ! (Y + j)) (buf ! (U + 2 * (j div 2))) (buf ! (U + 2 * (j div 2) + 1)) c"


text \<open>The tiling modes and the bits per pixel that the tile geometry knows.\<close>

definition known_tiling :: "64 word \<Rightarrow> bool" where
  "known_tiling tiling \<longleftrightarrow>
     tiling = LOCAL_DRM_FORMAT_MOD_NONE \<or> tiling = LOCAL_I915_FORMAT_MOD_X_TILED
     \<or> tiling = LOCAL_I915_FORMAT_MOD_Y_TILED \<or> tiling = LOCAL_I915_FORMAT_MOD_Yf_TILED"

definition known_bpp :: "int \<Rightarrow> bool" where
  "known_bpp b \<longleftrightarrow> b = 8 \<or> b = 16 \<or> b = 32 \<or> b = 64 \<or> b = 128"






text \<open>A cleared \<open>struct fb_convert_blit_upload\<close>.\<close>

definition blank_blit :: fb_convert_blit_upload where
  "blank_blit =
     \<lparr>rgb24_map = [], rgb24_stride = 0, rgb24_size = 0, linear_handle = 0, linear_map = [],
      linear_stride = 0, linear_size = 0, linear_offsets = [0, 0, 0, 0]\<rparr>"

section \<open>Properties\<close>

subsection \<open>Facts about the constants\<close>

lemma modifier_values:
  "LOCAL_DRM_FORMAT_MOD_NONE = 0"
  "LOCAL_I915_FORMAT_MOD_X_TILED = 0x0100000000000001"
  "LOCAL_I915_FORMAT_MOD_Y_TILED = 0x0100000000000002"
  "LOCAL_I915_FORMAT_MOD_Yf_TILED = 0x0100000000000003"
  by (simp_all add: LOCAL_DRM_FORMAT_MOD_NONE_def LOCAL_I915_FORMAT_MOD_X_TILED_def
      LOCAL_I915_FORMAT_MOD_Y_TILED_def LOCAL_I915_FORMAT_MOD_Yf_TILED_def
      fourcc_mod_code_def DRM_FORMAT_MOD_VENDOR_INTEL_def)

lemma tiling_values:
  "I915_TILING_NONE = 0" "I915_TILING_X = 1" "I915_TILING_Y = 2" "I915_TILING_Yf = 3"
  by (simp_all add: I915_TILING_NONE_def I915_TILING_X_def I915_TILING_Y_def I915_TILING_Yf_def)

lemma format_values:
  "DRM_FORMAT_RGB565 = 0x36314752"
  "DRM_FORMAT_XRGB8888 = 0x34325258"
  "DRM_FORMAT_XRGB2101010 = 0x30335258"
  "DRM_FORMAT_ARGB8888 = 0x34325241"
  "DRM_FORMAT_NV12 = 0x3231564e"
  by (simp_all add: DRM_FORMAT_RGB565_def DRM_FORMAT_XRGB8888_def DRM_FORMAT_XRGB2101010_def
      DRM_FORMAT_ARGB8888_def DRM_FORMAT_NV12_def fourcc_code_def)

subsection \<open>Modifier and tiling conversions\<close>

text \<open>
  Claim C10. On the four supported values the two conversions are inverse to each other:
  converting a supported modifier to its tiling constant and back gives the modifier, and
  converting a supported tiling constant to its modifier and back gives the tiling constant.
\<close>

theorem mod_tiling_inverse:
  "then_convert igt_fb_tiling_to_mod (igt_fb_mod_to_tiling LOCAL_DRM_FORMAT_MOD_NONE)
     = Inr LOCAL_DRM_FORMAT_MOD_NONE
   \<and> then_convert igt_fb_tiling_to_mod (igt_fb_mod_to_tiling LOCAL_I915_FORMAT_MOD_X_TILED)
     = Inr LOCAL_I915_FORMAT_MOD_X_TILED
   \<and> then_convert igt_fb_tiling_to_mod (igt_fb_mod_to_tiling LOCAL_I915_FORMAT_MOD_Y_TILED)
     = Inr LOCAL_I915_FORMAT_MOD_Y_TILED
   \<and> then_convert igt_fb_tiling_to_mod (igt_fb_mod_to_tiling LOCAL_I915_FORMAT_MOD_Yf_TILED)
     = Inr LOCAL_I915_FORMAT_MOD_Yf_TILED
   \<and> then_convert igt_fb_mod_to_tiling (igt_fb_tiling_to_mod I915_TILING_NONE) = Inr I915_TILING_NONE
   \<and> then_convert igt_fb_mod_to_tiling (igt_fb_tiling_to_mod I915_TILING_X) = Inr I915_TILING_X
   \<and> then_convert igt_fb_mod_to_tiling (igt_fb_tiling_to_mod I915_TILING_Y) = Inr I915_TILING_Y
   \<and> then_convert igt_fb_mod_to_tiling (igt_fb_tiling_to_mod I915_TILING_Yf) = Inr I915_TILING_Yf"
  by (simp add: then_convert_def igt_fb_mod_to_tiling_def igt_fb_tiling_to_mod_def
      modifier_values tiling_values)

subsection \<open>Facts about the format table\<close>

lemma sdiv_vals: "(16::int) sdiv 8 = 2" "(32::int) sdiv 8 = 4" "(8::int) sdiv 8 = 1"
  by (simp_all add: signed_divide_int_def)

lemma lookup_drm_format_SomeD:
  "lookup_drm_format d = Some f \<Longrightarrow> f \<in> set format_desc \<and> drm_id f = d"
  by (auto simp: lookup_drm_format_def find_Some_iff)

lemma packed_format_bpp:
  "f \<in> set format_desc \<Longrightarrow> planes f \<le> 1 \<Longrightarrow> bpp f = 16 \<or> bpp f = 32"
  by (auto simp: format_desc_def DF_def)

lemma lookup_xrgb: "lookup_drm_format DRM_FORMAT_XRGB8888 = Some xrgb8888_desc"
  by (simp add: lookup_drm_format_def format_desc_def DF_def format_values xrgb8888_desc_def)

lemma xrgb_fields: "planes xrgb8888_desc = 0" "bpp xrgb8888_desc = 32"
  by (simp_all add: xrgb8888_desc_def DF_def)

subsection \<open>Word arithmetic\<close>

lemma unat_lt_2p32: "unat (x::32 word) < 2 ^ 32"
  using unsigned_less [of x, where 'a = nat] by simp

lemma take_bit_unat32: "take_bit 32 (unat (x::32 word)) = unat x"
  using unat_lt_2p32 [of x] by (simp add: take_bit_nat_eq_self_iff)

lemma unat_pow2:
  assumes "k < 32"
  shows "unat ((2::32 word) ^ k) = 2 ^ k"
proof -
  have "(2::nat) ^ k < 2 ^ 32"
    using assms by (intro power_strict_increasing) simp_all
  moreover have "(2::32 word) ^ k = word_of_nat (2 ^ k)"
    by simp
  ultimately show ?thesis
    by (simp only: unat_of_nat) simp
qed

lemma unat_mult_small:
  "unat (a::32 word) * unat b < 2 ^ 32 \<Longrightarrow> unat (a * b) = unat a * unat b"
  using unat_mult_lem [of a b] by simp

lemma and_not_mask_word: "(x :: 32 word) AND NOT (mask k) = push_bit k (drop_bit k x)"
  by (rule bit_eqI) (auto simp: bit_simps)

lemma unat_and_not_mask: "unat ((x :: 32 word) AND NOT (mask k)) = (unat x div 2 ^ k) * 2 ^ k"
proof -
  have le: "(unat x div 2 ^ k) * 2 ^ k \<le> unat x"
    by simp
  with unat_lt_2p32 [of x] have lt: "(unat x div 2 ^ k) * 2 ^ k < 2 ^ 32"
    by linarith
  have "unat (x AND NOT (mask k)) = take_bit 32 (push_bit k (drop_bit k (unat x)))"
    by (simp add: and_not_mask_word unsigned_push_bit_eq unsigned_drop_bit_eq take_bit_unat32)
  also have "\<dots> = (unat x div 2 ^ k) * 2 ^ k"
    using lt by (simp add: push_bit_eq_mult drop_bit_eq_div take_bit_eq_mod mult.commute)
  finally show ?thesis .
qed

lemma unat_add_pow2_minus_1:
  assumes "k < 32" "unat v + 2 ^ k - 1 < (2::nat) ^ 32"
  shows "unat ((v::32 word) + 2 ^ k - 1) = unat v + 2 ^ k - 1"
proof -
  have nz: "(2::32 word) ^ k \<noteq> 0"
    using assms(1) by simp
  have m: "unat ((2::32 word) ^ k - 1) = 2 ^ k - 1"
    using nz assms(1) by (simp add: unat_minus_one unat_pow2)
  have "unat (v + (2 ^ k - 1)) = unat v + unat ((2::32 word) ^ k - 1)"
    using assms(2) m by (simp add: unat_add_lem [THEN iffD1])
  then show ?thesis using m by (simp add: add_diff_eq)
qed

text \<open>
  For a power of two as alignment, and as long as the sum does not wrap, the mask
  expression rounds up to the next multiple.
\<close>

lemma ALIGN_pow2:
  assumes "k < 32" "unat v + 2 ^ k - 1 < 2 ^ 32"
  shows "unat (ALIGN v (2 ^ k)) = round_up (unat v) (2 ^ k)"
proof -
  have "ALIGN v (2 ^ k) = (v + 2 ^ k - 1) AND NOT (mask k)"
    by (simp add: ALIGN_def mask_eq_decr_exp)
  then show ?thesis
    using assms by (simp add: unat_and_not_mask unat_add_pow2_minus_1 round_up_def)
qed

lemma ALIGN_one: "ALIGN v 1 = v"
  by (simp add: ALIGN_def)

lemma ALIGN_64:
  "unat v + 63 < 2 ^ 32 \<Longrightarrow> unat (ALIGN v 64) = round_up (unat v) 64"
  using ALIGN_pow2 [of 6 v] by simp

subsection \<open>Tile geometry\<close>

lemma tile_size_linear: "igt_get_fb_tile_size dev LOCAL_DRM_FORMAT_MOD_NONE b = Inr (64, 1)"
  by (simp add: igt_get_fb_tile_size_def)

lemma tile_size_tiled:
  assumes "tiling = LOCAL_I915_FORMAT_MOD_X_TILED \<or> tiling = LOCAL_I915_FORMAT_MOD_Y_TILED
             \<or> tiling = LOCAL_I915_FORMAT_MOD_Yf_TILED"
    and "require_intel dev" "b = 8 \<or> b = 16 \<or> b = 32"
  shows "\<exists>tw th. igt_get_fb_tile_size dev tiling b = Inr (tw, th)"
  using assms by (auto simp: igt_get_fb_tile_size_def modifier_values)

lemma tiled_not_linear:
  "tiling = LOCAL_I915_FORMAT_MOD_X_TILED \<or> tiling = LOCAL_I915_FORMAT_MOD_Y_TILED
     \<or> tiling = LOCAL_I915_FORMAT_MOD_Yf_TILED \<Longrightarrow> tiling \<noteq> LOCAL_DRM_FORMAT_MOD_NONE"
  by (auto simp: modifier_values)

subsection \<open>Packed formats, linear\<close>

lemma packed_linear:
  assumes f: "f \<in> set format_desc" "planes f \<le> 1"
    and w: "unat width * nat (bpp f div 8) < 2 ^ 31"
    and s: "round_up (unat width * nat (bpp f div 8)) 64 * unat height < 2 ^ 32"
  shows "\<exists>sz stride.
           calc_fb_size_packed dev width height f LOCAL_DRM_FORMAT_MOD_NONE = Some (Inr (sz, stride))
           \<and> unat stride = round_up (unat width * nat (bpp f div 8)) 64
           \<and> unat sz = unat stride * unat height"
proof -
  define cpp :: "32 word" where "cpp = word_of_int (bpp f sdiv 8)"
  have cpp: "unat cpp = nat (bpp f div 8)"
    using packed_format_bpp [OF f] by (auto simp: cpp_def sdiv_vals)
  have bw: "unat (width * cpp) = unat width * nat (bpp f div 8)"
    using w cpp by (simp add: unat_mult_small)
  have st: "unat (ALIGN (width * cpp) 64) = round_up (unat width * nat (bpp f div 8)) 64"
    using w bw by (simp add: ALIGN_64)
  have sz: "unat (ALIGN (width * cpp) 64 * height) = unat (ALIGN (width * cpp) 64) * unat height"
    using s st by (simp add: unat_mult_small)
  show ?thesis
    using st sz
    by (simp add: calc_fb_size_packed_def tile_size_linear ALIGN_one cpp_def Let_def)
qed

text \<open>
  Claim C1, amended. For every single-plane format of the table, linear tiling and every
  device (hence every hardware generation), the calculator returns the stride
  \<open>width * (bpp / 8)\<close> rounded up to a multiple of 64 and the size \<open>stride * height\<close>,
  provided \<open>width * (bpp / 8)\<close> fits an \<open>int\<close> and \<open>stride * height\<close> fits an
  \<open>unsigned\<close>.
\<close>

theorem linear_packed_stride_size:
  assumes "lookup_drm_format drm_format = Some f" "planes f \<le> 1"
    and "unat width * nat (bpp f div 8) < 2 ^ 31"
    and "round_up (unat width * nat (bpp f div 8)) 64 * unat height < 2 ^ 32"
  shows "\<exists>sz stride.
           igt_calc_fb_size dev width height drm_format LOCAL_DRM_FORMAT_MOD_NONE
             = Some (Inr (sz, stride))
           \<and> calc_fb_size_packed dev width height f LOCAL_DRM_FORMAT_MOD_NONE
             = Some (Inr (sz, stride))
           \<and> unat stride = round_up (unat width * nat (bpp f div 8)) 64
           \<and> unat sz = unat stride * unat height"
proof -
  have f: "f \<in> set format_desc"
    using assms(1) by (simp add: lookup_drm_format_SomeD)
  from packed_linear [OF f assms(2-4), of dev] show ?thesis
    using assms(1,2) by (auto simp: igt_calc_fb_size_def)
qed

theorem linear_packed_stride_size_witness:
  "lookup_drm_format DRM_FORMAT_XRGB8888 = Some xrgb8888_desc
   \<and> planes xrgb8888_desc \<le> 1
   \<and> unat (1024 :: 32 word) * nat (bpp xrgb8888_desc div 8) < 2 ^ 31
   \<and> (\<exists>sz stride.
         igt_calc_fb_size gen9_device 1024 768 DRM_FORMAT_XRGB8888 LOCAL_DRM_FORMAT_MOD_NONE
           = Some (Inr (sz, stride))
         \<and> unat stride = 4096 \<and> unat sz = 3145728)"
proof -
  have r: "round_up (unat (1024 :: 32 word) * nat (bpp xrgb8888_desc div 8)) 64 = 4096"
    by (simp add: xrgb_fields round_up_def)
  have "round_up (unat (1024 :: 32 word) * nat (bpp xrgb8888_desc div 8)) 64
          * unat (768 :: 32 word) < 2 ^ 32"
    by (simp add: xrgb_fields round_up_def)
  from linear_packed_stride_size [OF lookup_xrgb _ _ this, of gen9_device] r
  show ?thesis
    by (auto simp: xrgb_fields lookup_xrgb)
qed

text \<open>
  The claim as stated, for every width and height, fails where the product wraps: a
  65536 by 16384 XRGB8888 buffer has stride 262144 and gets size 0.
\<close>

theorem linear_packed_size_wraps:
  "igt_calc_fb_size gen9_device 65536 16384 DRM_FORMAT_XRGB8888 LOCAL_DRM_FORMAT_MOD_NONE
     = Some (Inr (0, 262144))
   \<and> unat (0 :: 32 word) \<noteq> unat (262144 :: 32 word) * unat (16384 :: 32 word)"
  by (simp add: igt_calc_fb_size_def lookup_xrgb xrgb_fields calc_fb_size_packed_def
      tile_size_linear ALIGN_one sdiv_vals ALIGN_def)

subsection \<open>Packed formats, legacy path\<close>

lemma is_smallest_pow2_unique:
  assumes "is_smallest_pow2 lo v r" "is_smallest_pow2 lo v r'"
  shows "r = r'"
proof -
  from assms obtain j j' where "r = 2 ^ j" "r' = 2 ^ j'"
    unfolding is_smallest_pow2_def by blast
  with assms have "r \<le> r'" "r' \<le> r"
    unfolding is_smallest_pow2_def by blast+
  then show ?thesis by simp
qed

lemma word_less_pow2: "k < 32 \<Longrightarrow> ((2::32 word) ^ k < v) = (2 ^ k < unat v)"
  by (simp add: word_less_nat_alt unat_pow2)

text \<open>The loop from a power of two, with a bound of at most \<open>2 ^ 31\<close>, stops.\<close>

lemma double_until_pow2:
  assumes "unat v \<le> 2 ^ 31"
  shows "k \<le> 31 \<Longrightarrow> \<exists>j. k \<le> j \<and> j \<le> 31 \<and> double_until (2 ^ k) v = Some (2 ^ j)
           \<and> unat v \<le> 2 ^ j \<and> (j = k \<or> 2 ^ (j - 1) < unat v)"
proof (induction "31 - k" arbitrary: k)
  case 0
  then have k: "k = 31" by simp
  have "\<not> (2::32 word) ^ 31 < v"
    using assms word_less_pow2 [of 31 v] by simp
  then have "double_until (2 ^ 31) v = Some (2 ^ 31)"
    by (subst double_until.simps) simp
  then show ?case
    using assms k by auto
next
  case (Suc d)
  then have k: "k < 31" by simp
  show ?case
  proof (cases "2 ^ k < unat v")
    case True
    then have lt: "(2::32 word) ^ k < v"
      using k by (simp add: word_less_pow2)
    have step: "double_until (2 ^ k) v = double_until (2 ^ Suc k) v"
      using lt by (subst double_until.simps) (simp add: mult.commute)
    have d: "d = 31 - Suc k" and k': "Suc k \<le> 31"
      using Suc(2) k by simp_all
    from Suc(1) [OF d k'] obtain j where
      j: "Suc k \<le> j" "j \<le> 31" "double_until (2 ^ Suc k) v = Some (2 ^ j)" "unat v \<le> 2 ^ j"
         "j = Suc k \<or> 2 ^ (j - 1) < unat v"
      by auto
    have "2 ^ (j - 1) < unat v"
      using j(5) True by auto
    with j step show ?thesis
      by (intro exI [of _ j]) auto
  next
    case False
    then have "\<not> (2::32 word) ^ k < v"
      using k by (simp add: word_less_pow2)
    then have "double_until (2 ^ k) v = Some (2 ^ k)"
      by (subst double_until.simps) simp
    with False k show ?thesis
      by (intro exI [of _ k]) auto
  qed
qed

lemma double_until_smallest:
  assumes "unat v \<le> 2 ^ 31" "k \<le> 31"
  shows "\<exists>r. double_until (2 ^ k) v = Some r \<and> is_smallest_pow2 (2 ^ k) (unat v) (unat r)"
proof -
  from double_until_pow2 [OF assms] obtain j where
    j: "k \<le> j" "j \<le> 31" "double_until (2 ^ k) v = Some (2 ^ j)" "unat v \<le> 2 ^ j"
       "j = k \<or> 2 ^ (j - 1) < unat v"
    by auto
  have u: "unat ((2::32 word) ^ j) = 2 ^ j"
    using j(2) by (simp add: unat_pow2)
  have lo: "(2::nat) ^ k \<le> 2 ^ j"
    using j(1) by (simp add: power_increasing)
  have least: "(2::nat) ^ j \<le> 2 ^ i" if "(2::nat) ^ k \<le> 2 ^ i" "unat v \<le> 2 ^ i" for i
  proof (cases "j = k")
    case True
    with that show ?thesis by simp
  next
    case False
    with j(5) have "(2::nat) ^ (j - 1) < 2 ^ i"
      using that(2) by linarith
    then have "j - 1 < i"
      by (simp add: power_strict_increasing_iff)
    then have "j \<le> i" by linarith
    then show ?thesis by (simp add: power_increasing)
  qed
  show ?thesis
    using j(3,4) u lo least unfolding is_smallest_pow2_def by auto
qed

text \<open>With a bound above \<open>2 ^ 31\<close> the counter wraps to zero and the loop goes on for ever.\<close>

lemma runaway_step:
  assumes "runaway x v"
  shows "x < v" "runaway (x * 2) v"
proof -
  from assms have v: "2 ^ 31 < unat v" and x: "x = 0 \<or> (\<exists>k\<le>31. x = 2 ^ k)"
    by (simp_all add: runaway_def)
  from x have "unat x \<le> 2 ^ 31"
  proof
    assume "x = 0" then show ?thesis by simp
  next
    assume "\<exists>k\<le>31. x = 2 ^ k"
    then obtain k where k: "k \<le> 31" "x = 2 ^ k" by blast
    then have "unat x = 2 ^ k" by (simp add: unat_pow2)
    moreover have "(2::nat) ^ k \<le> 2 ^ 31"
      using k(1) by (intro power_increasing) simp_all
    ultimately show ?thesis by simp
  qed
  with v show "x < v"
    by (simp add: word_less_nat_alt)
  from x show "runaway (x * 2) v"
  proof
    assume "x = 0" with v show ?thesis by (simp add: runaway_def)
  next
    assume "\<exists>k\<le>31. x = 2 ^ k"
    then obtain k where k: "k \<le> 31" "x = 2 ^ k" by blast
    show ?thesis
    proof (cases "k = 31")
      case True
      with k have "x * 2 = 0" by simp
      with v show ?thesis by (simp add: runaway_def)
    next
      case False
      with k have "Suc k \<le> 31" "x * 2 = 2 ^ Suc k" by simp_all
      with v show ?thesis unfolding runaway_def by blast
    qed
  qed
qed

lemma double_until_Some_not_runaway:
  assumes "double_until x v = Some y"
  shows "\<not> runaway x v"
proof -
  have "(case (x, v) of (a, b) \<Rightarrow> \<lambda>c. \<not> runaway a b) y"
  proof (rule double_until.raw_induct [where xa = "(x, v)" and y = y])
    fix f a b c
    assume ih: "\<And>a' b' c'. f a' b' = Some c' \<Longrightarrow> \<not> runaway a' b'"
      and eq: "(if a < b then f (a * 2) b else Some a) = Some c"
    show "\<not> runaway a b"
    proof
      assume r: "runaway a b"
      from runaway_step [OF r] eq have "f (a * 2) b = Some c"
        by simp
      from ih [OF this] runaway_step(2) [OF r] show False by simp
    qed
  next
    show "(case (x, v) of (a, b) \<Rightarrow> double_until a b) = Some y"
      using assms by simp
  qed
  then show ?thesis by simp
qed

lemma double_until_diverges:
  assumes "2 ^ 31 < unat v" "k \<le> 31"
  shows "double_until (2 ^ k) v = None"
proof -
  have "runaway (2 ^ k) v"
    using assms unfolding runaway_def by blast
  then show ?thesis
    using double_until_Some_not_runaway [of "2 ^ k" v] by (cases "double_until (2 ^ k) v") auto
qed

lemma packed_legacy:
  assumes f: "f \<in> set format_desc" "planes f \<le> 1"
    and t: "tiling = LOCAL_I915_FORMAT_MOD_X_TILED \<or> tiling = LOCAL_I915_FORMAT_MOD_Y_TILED
             \<or> tiling = LOCAL_I915_FORMAT_MOD_Yf_TILED"
    and dev: "require_intel dev" "intel_gen dev \<le> 3"
    and w: "unat width * nat (bpp f div 8) < 2 ^ 31"
    and s: "is_smallest_pow2 512 (unat width * nat (bpp f div 8)) s"
    and h: "s * unat height < 2 ^ 31"
  shows "\<exists>sz stride. calc_fb_size_packed dev width height f tiling = Some (Inr (sz, stride))
           \<and> unat stride = s
           \<and> is_smallest_pow2 (1024 * 1024) (unat stride * unat height) (unat sz)"
proof -
  define cpp :: "32 word" where "cpp = word_of_int (bpp f sdiv 8)"
  have b: "bpp f = 16 \<or> bpp f = 32"
    by (rule packed_format_bpp [OF f])
  then have cpp: "unat cpp = nat (bpp f div 8)"
    by (auto simp: cpp_def sdiv_vals)
  have bw: "unat (width * cpp) = unat width * nat (bpp f div 8)"
    using w cpp by (simp add: unat_mult_small)
  from tile_size_tiled [OF t dev(1), of "bpp f"] b obtain tw th where
    tile: "igt_get_fb_tile_size dev tiling (bpp f) = Inr (tw, th)"
    by auto
  from double_until_smallest [of "width * cpp" 9] w bw obtain stride where
    stride: "double_until 512 (width * cpp) = Some stride"
      "is_smallest_pow2 512 (unat (width * cpp)) (unat stride)"
    by auto
  have us: "unat stride = s"
    using is_smallest_pow2_unique stride(2) s bw by simp
  have v: "unat (stride * height) = s * unat height"
    using h us by (simp add: unat_mult_small)
  from double_until_smallest [of "stride * height" 20] v h obtain sz where
    sz: "double_until (1024 * 1024) (stride * height) = Some sz"
      "is_smallest_pow2 (1024 * 1024) (unat (stride * height)) (unat sz)"
    by auto
  show ?thesis
    using tile stride(1) sz us v dev(2) tiled_not_linear [OF t]
    by (simp add: calc_fb_size_packed_def cpp_def)
qed

lemma gen3_fields: "require_intel gen3_device" "intel_gen gen3_device = 3"
  "is_i915_device gen3_device" "\<not> IS_915 gen3_device"
  by (simp_all add: gen3_device_def)

text \<open>
  Claim C3, amended. For every packed format of the table with X, Y or Yf tiling on an
  Intel device of generation at most 3: let \<open>s\<close> be the smallest power of two that is at
  least 512 and at least \<open>width * (bpp / 8)\<close>. If \<open>width * (bpp / 8)\<close> and \<open>s * height\<close>
  are below \<open>2 ^ 31\<close>, the calculator returns, the stride is \<open>s\<close>, and the size is the
  smallest power of two that is at least 1 MiB and at least \<open>stride * height\<close>. So both
  are powers of two and at least the untiled minimum.
\<close>

theorem legacy_packed_power_of_two:
  assumes "lookup_drm_format drm_format = Some f" "planes f \<le> 1"
    and "tiling = LOCAL_I915_FORMAT_MOD_X_TILED \<or> tiling = LOCAL_I915_FORMAT_MOD_Y_TILED
           \<or> tiling = LOCAL_I915_FORMAT_MOD_Yf_TILED"
    and "require_intel dev" "intel_gen dev \<le> 3"
    and "unat width * nat (bpp f div 8) < 2 ^ 31"
    and "is_smallest_pow2 512 (unat width * nat (bpp f div 8)) s"
    and "s * unat height < 2 ^ 31"
  shows "\<exists>sz stride.
           igt_calc_fb_size dev width height drm_format tiling = Some (Inr (sz, stride))
           \<and> calc_fb_size_packed dev width height f tiling = Some (Inr (sz, stride))
           \<and> unat stride = s
           \<and> is_smallest_pow2 (1024 * 1024) (unat stride * unat height) (unat sz)"
proof -
  have f: "f \<in> set format_desc"
    using assms(1) by (simp add: lookup_drm_format_SomeD)
  from packed_legacy [OF f assms(2-8)] show ?thesis
    using assms(1,2) by (auto simp: igt_calc_fb_size_def)
qed

theorem legacy_packed_power_of_two_witness:
  "lookup_drm_format DRM_FORMAT_XRGB8888 = Some xrgb8888_desc
   \<and> planes xrgb8888_desc \<le> 1
   \<and> require_intel gen3_device \<and> intel_gen gen3_device \<le> 3
   \<and> unat (1024 :: 32 word) * nat (bpp xrgb8888_desc div 8) < 2 ^ 31
   \<and> is_smallest_pow2 512 (unat (1024 :: 32 word) * nat (bpp xrgb8888_desc div 8)) 4096
   \<and> 4096 * unat (768 :: 32 word) < (2::nat) ^ 31
   \<and> igt_calc_fb_size gen3_device 1024 768 DRM_FORMAT_XRGB8888 LOCAL_I915_FORMAT_MOD_X_TILED
        = Some (Inr (4194304, 4096))
   \<and> is_smallest_pow2 (1024 * 1024) (4096 * 768) 4194304"
proof -
  have "\<exists>j. (4096::nat) = 2 ^ j"
    by (rule exI [of _ 12]) simp
  then have s: "is_smallest_pow2 512 (unat (1024 :: 32 word) * nat (bpp xrgb8888_desc div 8)) 4096"
    unfolding is_smallest_pow2_def by (auto simp: xrgb_fields)
  have w: "unat (1024 :: 32 word) * nat (bpp xrgb8888_desc div 8) < 2 ^ 31"
    by (simp add: xrgb_fields)
  have h: "4096 * unat (768 :: 32 word) < (2::nat) ^ 31"
    by simp
  have e: "igt_calc_fb_size gen3_device 1024 768 DRM_FORMAT_XRGB8888 LOCAL_I915_FORMAT_MOD_X_TILED
        = Some (Inr (4194304, 4096))"
    by (simp add: igt_calc_fb_size_def lookup_xrgb xrgb_fields calc_fb_size_packed_def
        igt_get_fb_tile_size_def modifier_values gen3_fields sdiv_vals double_until.simps)
  from legacy_packed_power_of_two [OF lookup_xrgb _ _ gen3_fields(1) _ w s h,
      of LOCAL_I915_FORMAT_MOD_X_TILED] e
  have "is_smallest_pow2 (1024 * 1024) (4096 * 768) 4194304"
    by (auto simp: xrgb_fields gen3_fields)
  with s w h e show ?thesis
    by (simp add: lookup_xrgb xrgb_fields gen3_fields)
qed

text \<open>
  Beyond these bounds the claim fails. With width 1 and height \<open>2 ^ 23\<close> the product
  \<open>stride * height\<close> wraps to 0 and the size stays at 1 MiB, below \<open>stride * height\<close>; with
  height \<open>2 ^ 22 + 1\<close> the bound of the second loop is above \<open>2 ^ 31\<close> and the calculator
  does not return.
\<close>

theorem legacy_packed_fails_when_large:
  "calc_fb_size_packed gen3_device 1 8388608 xrgb8888_desc LOCAL_I915_FORMAT_MOD_X_TILED
     = Some (Inr (1048576, 512))
   \<and> unat (1048576 :: 32 word) < unat (512 :: 32 word) * unat (8388608 :: 32 word)
   \<and> calc_fb_size_packed gen3_device 1 4194305 xrgb8888_desc LOCAL_I915_FORMAT_MOD_X_TILED
     = None"
proof -
  have a: "calc_fb_size_packed gen3_device 1 8388608 xrgb8888_desc LOCAL_I915_FORMAT_MOD_X_TILED
     = Some (Inr (1048576, 512))"
    by (simp add: calc_fb_size_packed_def igt_get_fb_tile_size_def modifier_values gen3_fields
      xrgb_fields sdiv_vals double_until.simps)
  have "double_until (2 ^ 20) 2147484160 = None"
    by (rule double_until_diverges) simp_all
  then have b: "calc_fb_size_packed gen3_device 1 4194305 xrgb8888_desc
      LOCAL_I915_FORMAT_MOD_X_TILED = None"
    by (simp add: calc_fb_size_packed_def igt_get_fb_tile_size_def modifier_values gen3_fields
      xrgb_fields sdiv_vals double_until.simps [of 512])
  from a b show ?thesis by simp
qed

subsection \<open>Tile geometry and the device\<close>

lemma lookup_nv12: "lookup_drm_format DRM_FORMAT_NV12 = Some nv12_desc"
  by (simp add: lookup_drm_format_def format_desc_def DF_def format_values nv12_desc_def)

lemma nv12_fields: "planes nv12_desc = 2" "bpp nv12_desc = 32" "plane_bpp nv12_desc = [8, 16, 0, 0]"
  "drm_id nv12_desc = DRM_FORMAT_NV12"
  by (simp_all add: nv12_desc_def DF_def eval_nat_numeral)

text \<open>
  Claim C5. The sub-generation test is \<open>IS_915\<close>, which singles out the 915 chipset
  within generation 3. Exactly one tiled mode depends on it: the geometry of X and Yf
  tiling is the same whatever \<open>IS_915\<close> says, while Y tiling gives 512 by 8 on a 915
  and 128 by 32 on every other device that is not generation 2, and never 512 by 8 on a
  device that is not a 915. (The test \<open>intel_gen = 2\<close>, on the generation rather than the
  sub-generation, is shared by X and Y tiling; see \<open>tile_geometry_generation_2\<close>.)
\<close>

theorem tile_geometry_sub_generation:
  "igt_get_fb_tile_size (dev\<lparr>IS_915 := b\<rparr>) LOCAL_I915_FORMAT_MOD_X_TILED fb_bpp
     = igt_get_fb_tile_size dev LOCAL_I915_FORMAT_MOD_X_TILED fb_bpp
   \<and> igt_get_fb_tile_size (dev\<lparr>IS_915 := b\<rparr>) LOCAL_I915_FORMAT_MOD_Yf_TILED fb_bpp
     = igt_get_fb_tile_size dev LOCAL_I915_FORMAT_MOD_Yf_TILED fb_bpp
   \<and> (require_intel dev \<and> intel_gen dev \<noteq> 2 \<longrightarrow>
         igt_get_fb_tile_size (dev\<lparr>IS_915 := True\<rparr>) LOCAL_I915_FORMAT_MOD_Y_TILED fb_bpp
           = Inr (512, 8)
         \<and> igt_get_fb_tile_size (dev\<lparr>IS_915 := False\<rparr>) LOCAL_I915_FORMAT_MOD_Y_TILED fb_bpp
           = Inr (128, 32))
   \<and> (\<not> IS_915 dev \<longrightarrow>
         igt_get_fb_tile_size dev LOCAL_I915_FORMAT_MOD_Y_TILED fb_bpp \<noteq> Inr (512, 8))"
  by (simp add: igt_get_fb_tile_size_def modifier_values)

theorem tile_geometry_sub_generation_witness:
  "require_intel gen3_device \<and> intel_gen gen3_device \<noteq> 2
   \<and> \<not> IS_915 gen3_device
   \<and> igt_get_fb_tile_size (gen3_device\<lparr>IS_915 := True\<rparr>) LOCAL_I915_FORMAT_MOD_Y_TILED 32
        = Inr (512, 8)
   \<and> igt_get_fb_tile_size (gen3_device\<lparr>IS_915 := False\<rparr>) LOCAL_I915_FORMAT_MOD_Y_TILED 32
        = Inr (128, 32)
   \<and> igt_get_fb_tile_size (gen3_device\<lparr>IS_915 := True\<rparr>) LOCAL_I915_FORMAT_MOD_X_TILED 32
        = igt_get_fb_tile_size gen3_device LOCAL_I915_FORMAT_MOD_X_TILED 32
   \<and> igt_get_fb_tile_size gen3_device LOCAL_I915_FORMAT_MOD_Y_TILED 32 \<noteq> Inr (512, 8)"
  using tile_geometry_sub_generation [where dev = gen3_device and b = True and fb_bpp = 32]
  by (simp add: gen3_fields)

lemma tile_geometry_generation_2:
  "require_intel dev \<Longrightarrow>
     igt_get_fb_tile_size dev LOCAL_I915_FORMAT_MOD_X_TILED b
       = (if intel_gen dev = 2 then Inr (128, 16) else Inr (512, 8))
     \<and> (intel_gen dev = 2 \<longrightarrow> igt_get_fb_tile_size dev LOCAL_I915_FORMAT_MOD_Y_TILED b = Inr (128, 16))"
  by (simp add: igt_get_fb_tile_size_def modifier_values)

lemma ceiling_half: "\<lceil>real n / 2\<rceil> = int ((n + 1) div 2)"
  by linarith

lemma unat_half_up:
  assumes "unat (w::32 word) < 2 ^ 31"
  shows "unat ((w + 1) div 2) = (unat w + 1) div 2"
proof -
  have "unat (w + 1) = unat w + 1"
    using assms by (simp add: unat_add_lem [THEN iffD1])
  then show ?thesis
    by (simp add: unat_div)
qed

lemma nv12_planar_dims:
  "planar_width nv12_desc w 1 = (w + 1) div 2" "planar_width nv12_desc w 0 = w"
  "planar_height nv12_desc h 1 = (h + 1) div 2" "planar_height nv12_desc h 0 = h"
  "planar_width nv12_desc w (Suc 0) = (w + 1) div 2"
  "planar_height nv12_desc h (Suc 0) = (h + 1) div 2"
  by (simp_all add: planar_width_def planar_height_def nv12_fields)

lemma fb_planes_nv12:
  assumes "igt_create_fb_with_bo_size dev width height DRM_FORMAT_NV12 tiling bo_size bo_stride
             = Some (Inr fb)"
  shows "fb_plane_width fb = [width, planar_width nv12_desc width 1, 0, 0]"
    "fb_plane_height fb = [height, planar_height nv12_desc height 1, 0, 0]"
    "fb_width fb = width" "fb_height fb = height" "fb_drm_format fb = DRM_FORMAT_NV12"
    "fb_num_planes fb = 2"
  using assms
  by (auto simp: igt_create_fb_with_bo_size_def lookup_nv12 nv12_fields eval_nat_numeral
      nv12_planar_dims upt_rec
      split: option.splits sum.splits if_splits)

text \<open>
  Claim C7. For every non-negative \<open>int\<close> width and height, odd or even, the second plane
  of NV12 is \<open>\<lceil>width / 2\<rceil>\<close> by \<open>\<lceil>height / 2\<rceil>\<close>, and these are the values stored
  in \<open>plane_width[1]\<close> and \<open>plane_height[1]\<close> of every framebuffer that
  \<open>igt_create_fb_with_bo_size\<close> returns.
\<close>

theorem nv12_chroma_plane_dimensions:
  assumes "unat width < 2 ^ 31" "unat height < 2 ^ 31"
  shows "int (unat (planar_width nv12_desc width 1)) = \<lceil>real (unat width) / 2\<rceil>
    \<and> int (unat (planar_height nv12_desc height 1)) = \<lceil>real (unat height) / 2\<rceil>
    \<and> (igt_create_fb_with_bo_size dev width height DRM_FORMAT_NV12 tiling bo_size bo_stride
          = Some (Inr fb) \<longrightarrow>
        int (unat (fb_plane_width fb ! 1)) = \<lceil>real (unat width) / 2\<rceil>
        \<and> int (unat (fb_plane_height fb ! 1)) = \<lceil>real (unat height) / 2\<rceil>)"
proof -
  have w: "int (unat (planar_width nv12_desc width 1)) = \<lceil>real (unat width) / 2\<rceil>"
    using assms(1) by (simp only: nv12_planar_dims unat_half_up ceiling_half)
  have h: "int (unat (planar_height nv12_desc height 1)) = \<lceil>real (unat height) / 2\<rceil>"
    using assms(2) by (simp only: nv12_planar_dims unat_half_up ceiling_half)
  have "int (unat (fb_plane_width fb ! 1)) = \<lceil>real (unat width) / 2\<rceil>
      \<and> int (unat (fb_plane_height fb ! 1)) = \<lceil>real (unat height) / 2\<rceil>"
    if c: "igt_create_fb_with_bo_size dev width height DRM_FORMAT_NV12 tiling bo_size bo_stride
          = Some (Inr fb)"
  proof -
    have "fb_plane_width fb ! 1 = planar_width nv12_desc width 1"
      "fb_plane_height fb ! 1 = planar_height nv12_desc height 1"
      using fb_planes_nv12(1,2) [OF c] by simp_all
    with w h show ?thesis by (simp only:)
  qed
  with w h show ?thesis
    by blast
qed

lemma gen9_fields: "require_intel gen9_device" "intel_gen gen9_device = 9"
  "is_i915_device gen9_device" "\<not> IS_915 gen9_device" "gem_create gen9_device s = 1"
  "kms_addfb gen9_device h = 1" "fresh_word gen9_device = 0"
  by (simp_all add: gen9_device_def gen3_device_def)

lemma upt_small: "[0..<2] = [0, 1]" "[2..<4] = [2, 3]" "[0..<0] = []" "[0..<4] = [0, 1, 2, 3]"
  by (simp_all add: upt_rec)

lemma replicate_4: "replicate 4 x = [x, x, x, x]"
  by (simp add: numeral_eq_Suc)

lemma nv12_planar_strides:
  "planar_stride nv12_desc w 0 = w" "planar_stride nv12_desc w 1 = (w + 1) div 2 * 2"
  "planar_stride nv12_desc w (Suc 0) = (w + 1) div 2 * 2"
  by (simp_all add: planar_stride_def nv12_planar_dims nv12_fields sdiv_vals)

lemma word_if_pos: "(if 0 < s then s else 0) = (s :: 32 word)"
  by (simp add: word_greater_zero_iff)

lemma calc_planar_nv12:
  assumes t0: "igt_get_fb_tile_size dev tiling 8 = Inr (tw0, th0)"
    and t1: "igt_get_fb_tile_size dev tiling 16 = Inr (tw1, th1)"
  shows "calc_fb_size_planar dev width height nv12_desc tiling offsets =
     (let s0 = ALIGN width tw0;
          s1 = ALIGN ((width + 1) div 2 * 2) tw1;
          stride = (if s0 < s1 then s1 else s0);
          c0 = stride * ALIGN height th0;
          c1 = stride * ALIGN ((height + 1) div 2) th1
      in Inr (c0 + c1, stride,
              map_option (\<lambda>offs. offs[0 := 0, 1 := c0, 2 := 0, 3 := 0]) offsets))"
  using t0 t1
  by (cases offsets)
     (simp_all add: calc_fb_size_planar_def nv12_fields upt_small nv12_planar_strides
       nv12_planar_dims Let_def word_if_pos)

lemma create_nv12_9x9:
  "\<exists>fb. igt_create_fb_with_bo_size gen9_device 9 9 DRM_FORMAT_NV12 LOCAL_I915_FORMAT_MOD_Y_TILED 0 0
     = Some (Inr fb) \<and> fb_stride fb = 128 \<and> fb_size fb = 8192 \<and> fb_offsets fb = [0, 4096, 0, 0]"
proof -
  have t: "igt_get_fb_tile_size gen9_device LOCAL_I915_FORMAT_MOD_Y_TILED 8 = Inr (128, 32)"
    "igt_get_fb_tile_size gen9_device LOCAL_I915_FORMAT_MOD_Y_TILED 16 = Inr (128, 32)"
    by (simp_all add: igt_get_fb_tile_size_def modifier_values gen9_fields)
  have m: "igt_fb_mod_to_tiling LOCAL_I915_FORMAT_MOD_Y_TILED = Inr I915_TILING_Y"
    "LOCAL_I915_FORMAT_MOD_Y_TILED \<noteq> 0"
    by (simp_all add: igt_fb_mod_to_tiling_def modifier_values)
  show ?thesis
    by (simp add: igt_create_fb_with_bo_size_def lookup_nv12 nv12_fields create_bo_for_fb_def
        calc_planar_nv12 [OF t] m gen9_fields replicate_4 upt_small nv12_planar_dims
        ALIGN_def Let_def)
qed

theorem nv12_chroma_plane_dimensions_witness:
  "unat (9 :: 32 word) < 2 ^ 31
   \<and> (\<exists>fb. igt_create_fb_with_bo_size gen9_device 9 9 DRM_FORMAT_NV12
             LOCAL_I915_FORMAT_MOD_Y_TILED 0 0 = Some (Inr fb)
         \<and> int (unat (fb_plane_width fb ! 1)) = \<lceil>real (unat (9 :: 32 word)) / 2\<rceil>
         \<and> int (unat (fb_plane_height fb ! 1)) = \<lceil>real (unat (9 :: 32 word)) / 2\<rceil>
         \<and> \<lceil>real (unat (9 :: 32 word)) / 2\<rceil> = 5)"
proof -
  from create_nv12_9x9 obtain fb where
    fb: "igt_create_fb_with_bo_size gen9_device 9 9 DRM_FORMAT_NV12
           LOCAL_I915_FORMAT_MOD_Y_TILED 0 0 = Some (Inr fb)"
    by blast
  have b: "unat (9 :: 32 word) < 2 ^ 31" by simp
  have c: "\<lceil>real (unat (9 :: 32 word)) / 2\<rceil> = 5"
    by (simp add: ceiling_half)
  from nv12_chroma_plane_dimensions [OF b b, of gen9_device LOCAL_I915_FORMAT_MOD_Y_TILED 0 0 fb] fb
  have "int (unat (fb_plane_width fb ! 1)) = \<lceil>real (unat (9 :: 32 word)) / 2\<rceil>
      \<and> int (unat (fb_plane_height fb ! 1)) = \<lceil>real (unat (9 :: 32 word)) / 2\<rceil>"
    by blast
  with fb b c show ?thesis by blast
qed

lemma tile_size_values:
  assumes "igt_get_fb_tile_size dev tiling b = Inr (tw, th)"
  shows "tw \<in> {64, 128, 256, 512}" "th \<in> {1, 8, 16, 32, 64}"
  using assms by (auto simp: igt_get_fb_tile_size_def split: if_splits)

lemma ALIGN_tile:
  assumes "a \<in> {1, 8, 16, 32, 64, 128, 256, 512}" "unat v \<le> 2 ^ 31"
  shows "unat (ALIGN v a) = round_up (unat v) (unat a)"
proof -
  have "a = 2 ^ 0 \<or> a = 2 ^ 3 \<or> a = 2 ^ 4 \<or> a = 2 ^ 5 \<or> a = 2 ^ 6 \<or> a = 2 ^ 7 \<or> a = 2 ^ 8
      \<or> a = 2 ^ 9"
    using assms(1) by auto
  then have "\<exists>k<10. a = 2 ^ k"
    by (elim disjE) (rule exI [of _ 0], simp, rule exI [of _ 3], simp, rule exI [of _ 4], simp,
      rule exI [of _ 5], simp, rule exI [of _ 6], simp, rule exI [of _ 7], simp,
      rule exI [of _ 8], simp, rule exI [of _ 9], simp)
  then obtain k where k: "k < 10" "a = 2 ^ k"
    by blast
  have "(2::nat) ^ k \<le> 2 ^ 9"
    using k(1) by (intro power_increasing) simp_all
  then have "unat v + 2 ^ k - 1 < 2 ^ 32"
    using assms(2) by simp
  with ALIGN_pow2 [of k v] k show ?thesis
    by (simp add: unat_pow2)
qed

lemma ALIGN_tile_width:
  assumes "igt_get_fb_tile_size dev tiling b = Inr (tw, th)" "unat v \<le> 2 ^ 31"
  shows "unat (ALIGN v tw) = round_up (unat v) (unat tw)"
  using tile_size_values(1) [OF assms(1)] assms(2) by (intro ALIGN_tile) auto

lemma ALIGN_tile_height:
  assumes "igt_get_fb_tile_size dev tiling b = Inr (tw, th)" "unat v \<le> 2 ^ 31"
  shows "unat (ALIGN v th) = round_up (unat v) (unat th)"
  using tile_size_values(2) [OF assms(1)] assms(2) by (intro ALIGN_tile) auto

lemma unat_half_up_times_2:
  assumes "unat (w::32 word) < 2 ^ 31"
  shows "unat ((w + 1) div 2 * 2) = (unat w + 1) div 2 * 2"
proof -
  have "unat ((w + 1) div 2) * unat (2 :: 32 word) < 2 ^ 32"
    using assms by (simp add: unat_half_up)
  then show ?thesis
    using assms by (simp add: unat_mult_small unat_half_up)
qed

lemma planar_nv12_layout:
  assumes t0: "igt_get_fb_tile_size dev tiling 8 = Inr (tw0, th0)"
    and t1: "igt_get_fb_tile_size dev tiling 16 = Inr (tw1, th1)"
    and w: "unat width < 2 ^ 31" and h: "unat height < 2 ^ 31"
    and S: "S = max (round_up (nv12_plane_bytes (unat width) 0) (unat tw0))
                    (round_up (nv12_plane_bytes (unat width) 1) (unat tw1))"
    and c0: "c0 = S * round_up (nv12_plane_rows (unat height) 0) (unat th0)"
    and c1: "c1 = S * round_up (nv12_plane_rows (unat height) 1) (unat th1)"
    and fit: "c0 + c1 < 2 ^ 32"
    and len: "length offs = 4"
  shows "\<exists>sz stride o1.
           calc_fb_size_planar dev width height nv12_desc tiling (Some offs)
             = Inr (sz, stride, Some [0, o1, 0, 0])
           \<and> unat stride = S \<and> unat o1 = c0 \<and> unat sz = c0 + c1"
proof -
  define s0 where "s0 = ALIGN width tw0"
  define s1 where "s1 = ALIGN ((width + 1) div 2 * 2) tw1"
  define stride where "stride = (if s0 < s1 then s1 else s0)"
  have us0: "unat s0 = round_up (unat width) (unat tw0)"
    using w unfolding s0_def by (intro ALIGN_tile_width [OF t0]) simp
  have "unat ((width + 1) div 2 * 2) \<le> 2 ^ 31"
    using w by (simp add: unat_half_up_times_2)
  then have us1: "unat s1 = round_up ((unat width + 1) div 2 * 2) (unat tw1)"
    using w unfolding s1_def by (simp add: ALIGN_tile_width [OF t1] unat_half_up_times_2)
  have ust: "unat stride = S"
    using us0 us1 by (simp add: stride_def S nv12_plane_bytes_def word_less_nat_alt max_def)
  have a0: "unat (ALIGN height th0) = round_up (unat height) (unat th0)"
    using h by (intro ALIGN_tile_height [OF t0]) simp
  have "unat ((height + 1) div 2) \<le> 2 ^ 31"
    using h by (simp add: unat_half_up)
  then have a1: "unat (ALIGN ((height + 1) div 2) th1) = round_up ((unat height + 1) div 2) (unat th1)"
    using h by (simp add: ALIGN_tile_height [OF t1] unat_half_up)
  have m0: "unat (stride * ALIGN height th0) = c0"
    using fit ust a0 by (simp add: unat_mult_small c0 nv12_plane_rows_def)
  have m1: "unat (stride * ALIGN ((height + 1) div 2) th1) = c1"
    using fit ust a1 by (simp add: unat_mult_small c1 nv12_plane_rows_def)
  have sum: "unat (stride * ALIGN height th0 + stride * ALIGN ((height + 1) div 2) th1) = c0 + c1"
    using fit m0 m1 by (simp add: unat_add_lem [THEN iffD1])
  obtain a b c d where offs: "offs = [a, b, c, d]"
    using len by (auto simp: length_Suc_conv eval_nat_numeral)
  show ?thesis
    using ust m0 sum
    by (simp add: calc_planar_nv12 [OF t0 t1] Let_def offs
        s0_def [symmetric] s1_def [symmetric] stride_def [symmetric])
qed

lemma create_bo_packed_offsets:
  assumes "create_bo_for_fb dev width height (Some f) tiling sz stride (Some offs) = Some (Inr r)"
    and "planes f \<le> 1"
  shows "offsets_ret r = (if tiling \<noteq> 0 \<or> sz \<noteq> 0 \<or> stride \<noteq> 0 then Some (replicate 4 0)
                          else Some offs)"
  using assms
  by (auto simp: create_bo_for_fb_def Let_def split: option.splits sum.splits if_splits prod.splits)

lemma single_plane_fb_offsets:
  assumes "igt_create_fb_with_bo_size dev width height fmt tiling bo_size bo_stride = Some (Inr fb)"
    and "lookup_drm_format fmt = Some f" "planes f \<le> 1"
  shows "fb_offsets fb = [0, 0, 0, 0]"
proof -
  from assms(1,2) obtain r where
    r: "create_bo_for_fb dev width height (Some f) tiling bo_size bo_stride (Some (replicate 4 0))
          = Some (Inr r)"
    and fb: "fb_offsets fb = (case offsets_ret r of None \<Rightarrow> replicate 4 0 | Some offs \<Rightarrow> offs)"
    by (auto simp: igt_create_fb_with_bo_size_def Let_def split: option.splits sum.splits if_splits)
  from create_bo_packed_offsets [OF r assms(3)] fb show ?thesis
    by (simp add: replicate_4 split: if_splits)
qed

text \<open>
  Claim C2, amended. For NV12, the one multi-plane format of the table, with the tile
  sizes of its two planes, a non-negative \<open>int\<close> width and height, and a total size that
  fits an \<open>unsigned\<close>: the stride is the maximum over the planes of the plane's width in
  bytes rounded up to its tile width; plane 0 is at offset 0 and plane 1 at the stride
  times the height of plane 0 rounded up to its tile height; the size adds the stride
  times the rounded height of plane 1; the slots 2 and 3 have offset 0. For a single-plane
  format every offset of a framebuffer returned by \<open>igt_create_fb_with_bo_size\<close> is 0.
\<close>

theorem planar_layout_and_offsets:
  assumes "igt_get_fb_tile_size dev tiling 8 = Inr (tw0, th0)"
    and "igt_get_fb_tile_size dev tiling 16 = Inr (tw1, th1)"
    and "unat width < 2 ^ 31" and "unat height < 2 ^ 31"
    and "S = max (round_up (nv12_plane_bytes (unat width) 0) (unat tw0))
                 (round_up (nv12_plane_bytes (unat width) 1) (unat tw1))"
    and "c0 = S * round_up (nv12_plane_rows (unat height) 0) (unat th0)"
    and "c1 = S * round_up (nv12_plane_rows (unat height) 1) (unat th1)"
    and "c0 + c1 < 2 ^ 32"
    and "length offs = 4"
  shows "(\<exists>sz stride o1.
            calc_fb_size_planar dev width height nv12_desc tiling (Some offs)
              = Inr (sz, stride, Some [0, o1, 0, 0])
            \<and> unat stride = S \<and> unat o1 = c0 \<and> unat sz = c0 + c1)
         \<and> (\<forall>fmt f bo_size bo_stride fb.
              lookup_drm_format fmt = Some f \<and> planes f \<le> 1
              \<and> igt_create_fb_with_bo_size dev width height fmt tiling bo_size bo_stride
                  = Some (Inr fb)
              \<longrightarrow> fb_offsets fb = [0, 0, 0, 0])"
  using planar_nv12_layout [OF assms] single_plane_fb_offsets by blast

lemma tile_y_gen9:
  "igt_get_fb_tile_size gen9_device LOCAL_I915_FORMAT_MOD_Y_TILED 8 = Inr (128, 32)"
  "igt_get_fb_tile_size gen9_device LOCAL_I915_FORMAT_MOD_Y_TILED 16 = Inr (128, 32)"
  "igt_get_fb_tile_size gen9_device LOCAL_I915_FORMAT_MOD_Y_TILED 32 = Inr (128, 32)"
  by (simp_all add: igt_get_fb_tile_size_def modifier_values gen9_fields)

lemma mod_y: "igt_fb_mod_to_tiling LOCAL_I915_FORMAT_MOD_Y_TILED = Inr I915_TILING_Y"
    "LOCAL_I915_FORMAT_MOD_Y_TILED \<noteq> 0"
    "LOCAL_I915_FORMAT_MOD_Y_TILED \<noteq> LOCAL_DRM_FORMAT_MOD_NONE"
  by (simp_all add: igt_fb_mod_to_tiling_def modifier_values)

lemma create_xrgb_9x9:
  "\<exists>fb. igt_create_fb_with_bo_size gen9_device 9 9 DRM_FORMAT_XRGB8888
          LOCAL_I915_FORMAT_MOD_Y_TILED 0 0 = Some (Inr fb)"
  by (simp add: igt_create_fb_with_bo_size_def lookup_xrgb xrgb_fields create_bo_for_fb_def
      calc_fb_size_packed_def tile_y_gen9 mod_y gen9_fields Let_def)

theorem planar_layout_and_offsets_witness:
  "igt_get_fb_tile_size gen9_device LOCAL_I915_FORMAT_MOD_Y_TILED 8 = Inr (128, 32)
   \<and> igt_get_fb_tile_size gen9_device LOCAL_I915_FORMAT_MOD_Y_TILED 16 = Inr (128, 32)
   \<and> unat (9 :: 32 word) < 2 ^ 31
   \<and> (128::nat) = max (round_up (nv12_plane_bytes (unat (9 :: 32 word)) 0) (unat (128 :: 32 word)))
                 (round_up (nv12_plane_bytes (unat (9 :: 32 word)) 1) (unat (128 :: 32 word)))
   \<and> (4096::nat) = 128 * round_up (nv12_plane_rows (unat (9 :: 32 word)) 0) (unat (32 :: 32 word))
   \<and> (4096::nat) = 128 * round_up (nv12_plane_rows (unat (9 :: 32 word)) 1) (unat (32 :: 32 word))
   \<and> (\<exists>sz stride o1.
         calc_fb_size_planar gen9_device 9 9 nv12_desc LOCAL_I915_FORMAT_MOD_Y_TILED
           (Some [0, 0, 0, 0]) = Inr (sz, stride, Some [0, o1, 0, 0])
         \<and> unat stride = 128 \<and> unat o1 = 4096 \<and> unat sz = 8192)
   \<and> (\<exists>fb. igt_create_fb_with_bo_size gen9_device 9 9 DRM_FORMAT_XRGB8888
              LOCAL_I915_FORMAT_MOD_Y_TILED 0 0 = Some (Inr fb)
         \<and> fb_offsets fb = [0, 0, 0, 0])"
proof -
  have b: "unat (9 :: 32 word) < 2 ^ 31" by simp
  have S: "(128::nat) = max (round_up (nv12_plane_bytes (unat (9 :: 32 word)) 0) (unat (128 :: 32 word)))
                 (round_up (nv12_plane_bytes (unat (9 :: 32 word)) 1) (unat (128 :: 32 word)))"
    by (simp add: round_up_def nv12_plane_bytes_def)
  have c0: "(4096::nat) = 128 * round_up (nv12_plane_rows (unat (9 :: 32 word)) 0) (unat (32 :: 32 word))"
    by (simp add: round_up_def nv12_plane_rows_def)
  have c1: "(4096::nat) = 128 * round_up (nv12_plane_rows (unat (9 :: 32 word)) 1) (unat (32 :: 32 word))"
    by (simp add: round_up_def nv12_plane_rows_def)
  have fit: "(4096::nat) + 4096 < 2 ^ 32" by simp
  have len: "length [0, 0, 0, 0 :: 32 word] = 4" by simp
  note t = planar_layout_and_offsets [OF tile_y_gen9(1,2) b b S c0 c1 fit len]
  from t have p: "\<exists>sz stride o1.
         calc_fb_size_planar gen9_device 9 9 nv12_desc LOCAL_I915_FORMAT_MOD_Y_TILED
           (Some [0, 0, 0, 0]) = Inr (sz, stride, Some [0, o1, 0, 0])
         \<and> unat stride = 128 \<and> unat o1 = 4096 \<and> unat sz = 8192"
    by simp
  from create_xrgb_9x9 obtain fb where
    fb: "igt_create_fb_with_bo_size gen9_device 9 9 DRM_FORMAT_XRGB8888
          LOCAL_I915_FORMAT_MOD_Y_TILED 0 0 = Some (Inr fb)"
    by blast
  from t lookup_xrgb xrgb_fields(1) fb have "fb_offsets fb = [0, 0, 0, 0]"
    by (metis zero_le_one)
  with fb have q: "\<exists>fb. igt_create_fb_with_bo_size gen9_device 9 9 DRM_FORMAT_XRGB8888
              LOCAL_I915_FORMAT_MOD_Y_TILED 0 0 = Some (Inr fb)
         \<and> fb_offsets fb = [0, 0, 0, 0]"
    by blast
  from tile_y_gen9(1,2) b S c0 c1 p q show ?thesis
    by (intro conjI)
qed

text \<open>
  As stated, for every layout, the claim fails where the products wrap: for a 65536 by
  65536 linear NV12 buffer the offset of plane 1 is 0, not \<open>65536 * 65536\<close>.
\<close>

theorem planar_offset_wraps:
  "calc_fb_size_planar gen9_device 65536 65536 nv12_desc LOCAL_DRM_FORMAT_MOD_NONE
     (Some [0, 0, 0, 0]) = Inr (2147483648, 65536, Some [0, 0, 0, 0])
   \<and> unat (0 :: 32 word) \<noteq> unat (65536 :: 32 word) * round_up (unat (65536 :: 32 word)) 1"
  by (simp add: calc_planar_nv12 [OF tile_size_linear tile_size_linear] ALIGN_one ALIGN_def
      round_up_def)

text \<open>
  \<open>create_bo_for_fb\<close> itself clears the offsets of a single-plane format only on the
  path that computes the layout. On the dumb-buffer path (linear, no size, no stride) the
  caller's array is left as it was, which is how \<open>setup_linear_mapping\<close> calls it; and on
  the computing path a null \<open>offsets\<close>, which is what \<open>igt_create_bo_with_dimensions\<close>
  passes, is written through.
\<close>

lemma dumb_path_keeps_offsets:
  "create_bo_for_fb gen9_device 9 9 (Some xrgb8888_desc) LOCAL_DRM_FORMAT_MOD_NONE 0 0
     (Some [1, 2, 3, 4])
   = Some (Inr \<lparr>bo = 1, size_ret = 0, stride_ret = 36, offsets_ret = Some [1, 2, 3, 4],
                is_dumb_ret = True\<rparr>)"
  by (simp add: create_bo_for_fb_def xrgb_fields modifier_values gen9_device_def gen3_device_def
      sdiv_vals)

lemma null_offsets_crash:
  "create_bo_for_fb gen9_device 9 9 (Some xrgb8888_desc) LOCAL_I915_FORMAT_MOD_X_TILED 0 0 None
   = Some (Inl Segfault)"
  by (simp add: create_bo_for_fb_def xrgb_fields modifier_values)

subsection \<open>Pixel conversion\<close>

lemma int_and_not_1: "nat (int j AND NOT 1) = 2 * (j div 2)"
proof -
  have "int j AND NOT 1 = unset_bit 0 (int j)"
    by (simp add: unset_bit_eq_and_not)
  also have "\<dots> = 2 * (int j div 2)"
    by (simp add: unset_bit_0)
  finally show ?thesis
    by (simp add: nat_mult_distrib nat_div_distrib)
qed

lemma int_or_1: "nat (int j OR 1) = 2 * (j div 2) + 1"
proof -
  have "int j OR 1 = int j + of_bool (even (int j))"
    by (rule or_one_eq)
  then show ?thesis
    by (cases "even j") (auto simp: nat_add_distrib elim: evenE oddE)
qed

lemma unat_of_nat_add:
  "j + unat (s :: 32 word) < 2 ^ 32 \<Longrightarrow> unat (word_of_nat j + s) = j + unat s"
proof -
  assume a: "j + unat s < 2 ^ 32"
  then have "unat (word_of_nat j :: 32 word) = j"
    by (simp add: unat_of_nat)
  with a show ?thesis
    by (simp add: unat_add_lem [THEN iffD1])
qed

lemma unat_twice:
  "2 * unat (s :: 32 word) < 2 ^ 32 \<Longrightarrow> unat (2 * s) = 2 * unat s"
  using unat_mult_small [of 2 s] by simp

lemma for_each_append:
  "for_each body (xs @ ys) s =
     (case for_each body xs s of Inl e \<Rightarrow> Inl e | Inr s' \<Rightarrow> for_each body ys s')"
  by (induction xs arbitrary: s) (auto split: sum.splits)

lemma for_each_Suc:
  "for_each body [0..<Suc n] s =
     (case for_each body [0..<n] s of Inl e \<Rightarrow> Inl e | Inr s' \<Rightarrow> body n s')"
  by (simp add: for_each_append split: sum.splits)

lemma load_ok: "i < length mem \<Longrightarrow> load mem i = Inr (mem ! i)"
  by (simp add: load_def)

lemma store_ok: "i < length mem \<Longrightarrow> store mem i v = Inr (mem[i := v])"
  by (simp add: store_def)

lemma and_then_Inr: "and_then (Inr v) f = f v"
  by (simp add: and_then_def)

lemma block_effect:
  assumes "Y + j + unat pstride < length buf"
    and "U + 2 * (j div 2) + 1 < length buf"
    and "P + unat rstride + 4 * j + 2 < length mem"
    and "j + unat pstride < 2 ^ 32" "4 * j + 2 + unat rstride < 2 ^ 32"
  shows "nv12_to_rgb24_block fl buf Y U pstride P rstride j mem =
    Inr (mem[P + (4 * j + 2) :=
               nv12_pixel fl (buf ! (Y + j)) (buf ! (U + 2 * (j div 2)))
                 (buf ! (U + 2 * (j div 2) + 1)) 2,
             P + unat rstride + (4 * j + 2) :=
               nv12_pixel fl (buf ! (Y + unat pstride + j)) (buf ! (U + 2 * (j div 2)))
                 (buf ! (U + 2 * (j div 2) + 1)) 2,
             P + (4 * j + 1) :=
               nv12_pixel fl (buf ! (Y + j)) (buf ! (U + 2 * (j div 2)))
                 (buf ! (U + 2 * (j div 2) + 1)) 1,
             P + unat rstride + (4 * j + 1) :=
               nv12_pixel fl (buf ! (Y + unat pstride + j)) (buf ! (U + 2 * (j div 2)))
                 (buf ! (U + 2 * (j div 2) + 1)) 1,
             P + 4 * j :=
               nv12_pixel fl (buf ! (Y + j)) (buf ! (U + 2 * (j div 2)))
                 (buf ! (U + 2 * (j div 2) + 1)) 0,
             P + unat rstride + 4 * j :=
               nv12_pixel fl (buf ! (Y + unat pstride + j)) (buf ! (U + 2 * (j div 2)))
                 (buf ! (U + 2 * (j div 2) + 1)) 0])"
proof -
  have i1: "unat (word_of_nat j + pstride) = j + unat pstride"
    using assms(4) by (rule unat_of_nat_add)
  have i2: "unat (word_of_nat (j * 4 + 2) + rstride) = j * 4 + 2 + unat rstride"
    using assms(5) by (intro unat_of_nat_add) linarith
  have i3: "unat (word_of_nat (j * 4 + 1) + rstride) = j * 4 + 1 + unat rstride"
    using assms(5) by (intro unat_of_nat_add) linarith
  have i4: "unat (word_of_nat (j * 4) + rstride) = j * 4 + unat rstride"
    using assms(5) by (intro unat_of_nat_add) linarith
  show ?thesis
    using assms(1-3)
    by (simp only: nv12_to_rgb24_block_def i1 i2 i3 i4 int_and_not_1 int_or_1)
       (simp add: load_ok store_ok and_then_Inr Let_def nv12_pixel_def add_ac mult.commute)
qed

lemma less_3_cases: "c < 3 \<Longrightarrow> c = 0 \<or> c = 1 \<or> c = (2::nat)"
  by linarith

lemma chroma_index_bound: "j < W \<Longrightarrow> 2 * (j div 2) + 1 < 2 * ((W + 1) div 2)" for j W :: nat
  by presburger

lemma row_pair_effect:
  assumes "Y + unat pstride + W \<le> length buf"
    and "U + 2 * ((W + 1) div 2) \<le> length buf"
    and "P + unat rstride + 4 * W \<le> length mem"
    and "4 * W \<le> unat rstride"
    and "W + unat pstride \<le> 2 ^ 32"
    and "4 * W + unat rstride \<le> 2 ^ 32"
  shows "n \<le> W \<Longrightarrow>
    \<exists>mem'. for_each (nv12_to_rgb24_block fl buf Y U pstride P rstride) [0..<n] mem = Inr mem'
      \<and> length mem' = length mem
      \<and> (\<forall>j<n. \<forall>c<3. mem' ! (P + 4 * j + c) = nv12_px fl buf Y U j c
            \<and> mem' ! (P + unat rstride + 4 * j + c) = nv12_px fl buf (Y + unat pstride) U j c)
      \<and> (\<forall>x<P. mem' ! x = mem ! x)"
proof (induction n)
  case 0
  then show ?case by simp
next
  case (Suc n)
  then have n: "n < W" by simp
  from Suc obtain m1 where
    m1: "for_each (nv12_to_rgb24_block fl buf Y U pstride P rstride) [0..<n] mem = Inr m1"
    and len: "length m1 = length mem"
    and old: "\<And>j c. j < n \<Longrightarrow> c < 3 \<Longrightarrow> m1 ! (P + 4 * j + c) = nv12_px fl buf Y U j c
            \<and> m1 ! (P + unat rstride + 4 * j + c) = nv12_px fl buf (Y + unat pstride) U j c"
    and frame: "\<And>x. x < P \<Longrightarrow> m1 ! x = mem ! x"
    by auto
  have b1: "Y + n + unat pstride < length buf"
    using assms(1) n by linarith
  have b2: "U + 2 * (n div 2) + 1 < length buf"
    using assms(2) chroma_index_bound [OF n] by linarith
  have b3: "P + unat rstride + 4 * n + 2 < length m1"
    using assms(3) n len by linarith
  have b4: "n + unat pstride < 2 ^ 32"
    using assms(5) n by linarith
  have b5: "4 * n + 2 + unat rstride < 2 ^ 32"
    using assms(6) n by linarith
  note eff = block_effect [OF b1 b2 b3 b4 b5, of fl]
  define m2 where "m2 = (case nv12_to_rgb24_block fl buf Y U pstride P rstride n m1 of Inr m \<Rightarrow> m)"
  have blk: "nv12_to_rgb24_block fl buf Y U pstride P rstride n m1 = Inr m2"
    by (simp add: m2_def eff)
  have run: "for_each (nv12_to_rgb24_block fl buf Y U pstride P rstride) [0..<Suc n] mem = Inr m2"
    by (subst for_each_Suc) (simp add: m1 blk)
  have len2: "length m2 = length mem"
    by (simp add: m2_def eff len)
  have new: "m2 ! (P + 4 * n + c) = nv12_px fl buf Y U n c
      \<and> m2 ! (P + unat rstride + 4 * n + c) = nv12_px fl buf (Y + unat pstride) U n c"
    if "c < 3" for c
    using less_3_cases [OF that] b3 assms(4) n
    by (auto simp: m2_def eff nv12_px_def nth_list_update)
  have keep: "m2 ! (P + 4 * j + c) = nv12_px fl buf Y U j c
      \<and> m2 ! (P + unat rstride + 4 * j + c) = nv12_px fl buf (Y + unat pstride) U j c"
    if "j < n" "c < 3" for j c
    using that old [OF that] assms(4) n
    by (simp add: m2_def eff nth_list_update)
  have frame2: "m2 ! x = mem ! x" if "x < P" for x
    using that frame [OF that] by (simp add: m2_def eff)
  show ?case
    using run len2 new keep frame2 by (auto simp: less_Suc_eq)
qed

lemma last_effect:
  assumes "Y + j < length buf"
    and "U + 2 * (j div 2) + 1 < length buf"
    and "P + 4 * j + 2 < length mem"
  shows "nv12_to_rgb24_last fl buf Y U P j mem =
    Inr (mem[P + (4 * j + 2) := nv12_px fl buf Y U j 2,
             P + (4 * j + 1) := nv12_px fl buf Y U j 1,
             P + 4 * j := nv12_px fl buf Y U j 0])"
  using assms
  by (simp only: nv12_to_rgb24_last_def int_and_not_1 int_or_1)
     (simp add: load_ok store_ok and_then_Inr Let_def nv12_pixel_def nv12_px_def add_ac
        mult.commute)

lemma last_row_effect:
  assumes "Y + W \<le> length buf"
    and "U + 2 * ((W + 1) div 2) \<le> length buf"
    and "P + 4 * W \<le> length mem"
  shows "n \<le> W \<Longrightarrow>
    \<exists>mem'. for_each (nv12_to_rgb24_last fl buf Y U P) [0..<n] mem = Inr mem'
      \<and> length mem' = length mem
      \<and> (\<forall>j<n. \<forall>c<3. mem' ! (P + 4 * j + c) = nv12_px fl buf Y U j c)
      \<and> (\<forall>x<P. mem' ! x = mem ! x)"
proof (induction n)
  case 0
  then show ?case by simp
next
  case (Suc n)
  then have n: "n < W" by simp
  from Suc obtain m1 where
    m1: "for_each (nv12_to_rgb24_last fl buf Y U P) [0..<n] mem = Inr m1"
    and len: "length m1 = length mem"
    and old: "\<And>j c. j < n \<Longrightarrow> c < 3 \<Longrightarrow> m1 ! (P + 4 * j + c) = nv12_px fl buf Y U j c"
    and frame: "\<And>x. x < P \<Longrightarrow> m1 ! x = mem ! x"
    by auto
  have b1: "Y + n < length buf"
    using assms(1) n by linarith
  have b2: "U + 2 * (n div 2) + 1 < length buf"
    using assms(2) chroma_index_bound [OF n] by linarith
  have b3: "P + 4 * n + 2 < length m1"
    using assms(3) n len by linarith
  note eff = last_effect [OF b1 b2 b3, of fl]
  define m2 where "m2 = (case nv12_to_rgb24_last fl buf Y U P n m1 of Inr m \<Rightarrow> m)"
  have blk: "nv12_to_rgb24_last fl buf Y U P n m1 = Inr m2"
    by (simp add: m2_def eff)
  have run: "for_each (nv12_to_rgb24_last fl buf Y U P) [0..<Suc n] mem = Inr m2"
    by (subst for_each_Suc) (simp add: m1 blk)
  have len2: "length m2 = length mem"
    by (simp add: m2_def eff len)
  have new: "m2 ! (P + 4 * n + c) = nv12_px fl buf Y U n c" if "c < 3" for c
    using less_3_cases [OF that] b3
    by (auto simp: m2_def eff nth_list_update)
  have keep: "m2 ! (P + 4 * j + c) = nv12_px fl buf Y U j c" if "j < n" "c < 3" for j c
    using that old [OF that]
    by (simp add: m2_def eff nth_list_update)
  have frame2: "m2 ! x = mem ! x" if "x < P" for x
    using that frame [OF that] by (simp add: m2_def eff)
  show ?case
    using run len2 new keep frame2 by (auto simp: less_Suc_eq)
qed

lemma rows_le: "k < K \<Longrightarrow> 2 * k * s + 2 * s \<le> 2 * K * s" for k K s :: nat
proof -
  assume "k < K"
  then have "(2 * k + 2) * s \<le> (2 * K) * s"
    by (intro mult_le_mono1) simp
  then show ?thesis by (simp add: algebra_simps)
qed

lemma rows_le1: "k < K \<Longrightarrow> k * s + s \<le> K * s" for k K s :: nat
proof -
  assume "k < K"
  then have "(k + 1) * s \<le> K * s"
    by (intro mult_le_mono1) simp
  then show ?thesis by (simp add: algebra_simps)
qed

lemma cell_below: "i < r \<Longrightarrow> x < s \<Longrightarrow> i * s + x < r * s" for i r s x :: nat
  using rows_le1 [of i r s] by linarith

lemma rows_effect:
  assumes ybound: "y0 + 2 * K * unat pstride \<le> length buf"
    and uvbound: "uv0 + K * unat pstride \<le> length buf"
    and mbound: "2 * K * unat rstride \<le> length mem"
    and wps: "2 * ((W + 1) div 2) \<le> unat pstride"
    and wrs: "4 * W \<le> unat rstride"
    and nowrap: "2 * unat pstride < 2 ^ 32" "2 * unat rstride < 2 ^ 32"
  shows "k \<le> K \<Longrightarrow>
    \<exists>mem'. for_each (nv12_to_rgb24_rows fl buf pstride rstride W) [0..<k] (mem, 0, y0, uv0)
        = Inr (mem', 2 * k * unat rstride, y0 + 2 * k * unat pstride, uv0 + k * unat pstride)
      \<and> length mem' = length mem
      \<and> (\<forall>i<2 * k. \<forall>j<W. \<forall>c<3.
            mem' ! (i * unat rstride + 4 * j + c)
              = nv12_px fl buf (y0 + i * unat pstride) (uv0 + (i div 2) * unat pstride) j c)"
proof (induction k)
  case 0
  then show ?case by simp
next
  case (Suc k)
  then have k: "k < K" by simp
  define ps where "ps = unat pstride"
  define rs where "rs = unat rstride"
  from Suc obtain m1 where
    m1: "for_each (nv12_to_rgb24_rows fl buf pstride rstride W) [0..<k] (mem, 0, y0, uv0)
        = Inr (m1, 2 * k * rs, y0 + 2 * k * ps, uv0 + k * ps)"
    and len: "length m1 = length mem"
    and old: "\<And>i j c. i < 2 * k \<Longrightarrow> j < W \<Longrightarrow> c < 3 \<Longrightarrow>
        m1 ! (i * rs + 4 * j + c) = nv12_px fl buf (y0 + i * ps) (uv0 + (i div 2) * ps) j c"
    unfolding ps_def rs_def by auto
  have wle: "W \<le> ps"
    using wps unfolding ps_def by presburger
  have p1: "y0 + 2 * k * ps + unat pstride + W \<le> length buf"
    using ybound rows_le [OF k, of ps] wle unfolding ps_def by linarith
  have p2: "uv0 + k * ps + 2 * ((W + 1) div 2) \<le> length buf"
    using uvbound rows_le1 [OF k, of ps] wps unfolding ps_def by linarith
  have p3: "2 * k * rs + unat rstride + 4 * W \<le> length m1"
    using mbound rows_le [OF k, of rs] wrs len unfolding rs_def by linarith
  have p5: "W + unat pstride \<le> 2 ^ 32"
    using wle nowrap(1) unfolding ps_def by linarith
  have p6: "4 * W + unat rstride \<le> 2 ^ 32"
    using wrs nowrap(2) by linarith
  from row_pair_effect [OF p1 p2 p3 wrs p5 p6, of W fl] obtain m2 where
    m2: "for_each (nv12_to_rgb24_block fl buf (y0 + 2 * k * ps) (uv0 + k * ps) pstride
           (2 * k * rs) rstride) [0..<W] m1 = Inr m2"
    and len2: "length m2 = length m1"
    and new: "\<And>j c. j < W \<Longrightarrow> c < 3 \<Longrightarrow>
        m2 ! (2 * k * rs + 4 * j + c) = nv12_px fl buf (y0 + 2 * k * ps) (uv0 + k * ps) j c
        \<and> m2 ! (2 * k * rs + unat rstride + 4 * j + c)
            = nv12_px fl buf (y0 + 2 * k * ps + unat pstride) (uv0 + k * ps) j c"
    and frame: "\<And>x. x < 2 * k * rs \<Longrightarrow> m2 ! x = m1 ! x"
    by auto
  have tw: "unat (2 * pstride) = 2 * ps" "unat (2 * rstride) = 2 * rs"
    using unat_twice [OF nowrap(1)] unat_twice [OF nowrap(2)] by (simp_all add: ps_def rs_def)
  have "nv12_to_rgb24_rows fl buf pstride rstride W k
        (m1, 2 * k * rs, y0 + 2 * k * ps, uv0 + k * ps)
      = Inr (m2, 2 * k * rs + 2 * rs, y0 + 2 * k * ps + 2 * ps, uv0 + k * ps + ps)"
    by (simp only: nv12_to_rgb24_rows_def prod.case m2 tw sum.case ps_def [symmetric])
  then have step: "nv12_to_rgb24_rows fl buf pstride rstride W k
        (m1, 2 * k * rs, y0 + 2 * k * ps, uv0 + k * ps)
      = Inr (m2, 2 * Suc k * rs, y0 + 2 * Suc k * ps, uv0 + Suc k * ps)"
    by (simp add: algebra_simps)
  have run: "for_each (nv12_to_rgb24_rows fl buf pstride rstride W) [0..<Suc k] (mem, 0, y0, uv0)
      = Inr (m2, 2 * Suc k * rs, y0 + 2 * Suc k * ps, uv0 + Suc k * ps)"
    by (subst for_each_Suc) (simp add: m1 step)
  have px: "m2 ! (i * rs + 4 * j + c) = nv12_px fl buf (y0 + i * ps) (uv0 + (i div 2) * ps) j c"
    if i: "i < 2 * Suc k" and j: "j < W" and c: "c < 3" for i j c
  proof -
    have "i < 2 * k \<or> i = 2 * k \<or> i = 2 * k + 1"
      using i by auto
    then consider "i < 2 * k" | "i = 2 * k" | "i = 2 * k + 1"
      by blast
    then show ?thesis
    proof cases
      case 1
      have "4 * j + c < rs"
        using j c wrs unfolding rs_def by linarith
      then have "i * rs + (4 * j + c) < 2 * k * rs"
        using 1 by (intro cell_below)
      then have "m2 ! (i * rs + 4 * j + c) = m1 ! (i * rs + 4 * j + c)"
        using frame by (simp add: add.assoc)
      with old [OF 1 j c] show ?thesis by simp
    next
      case 2
      with new [OF j c] show ?thesis by simp
    next
      case 3
      then have "i div 2 = k" by linarith
      with 3 new [OF j c] show ?thesis
        by (simp add: ps_def rs_def algebra_simps)
    qed
  qed
  show ?case
    using run len2 len px unfolding ps_def rs_def by auto
qed

lemma sdiv_9_2: "(9::int) sdiv 2 = 4"
  by (simp add: signed_divide_int_def)

lemma decode_9x9:
  assumes fb: "fb_width fb = 9" "fb_height fb = 9"
    and lin: "linear_stride blit = 64" "linear_size blit = 896"
      "linear_offsets blit = [0, 576, 0, 0]" "length (linear_map blit) = 896"
    and rgb: "rgb24_stride blit = 48" "432 \<le> length (rgb24_map blit)"
  shows "\<exists>mem'. convert_nv12_to_rgb24 fl fb blit = Inr mem'
      \<and> length mem' = length (rgb24_map blit)
      \<and> (\<forall>i<9. \<forall>j<9. \<forall>c<3. mem' ! (i * 48 + 4 * j + c)
             = nv12_px fl (linear_map blit) (i * 64) (576 + (i div 2) * 64) j c)"
proof -
  define buf where "buf = linear_map blit"
  define mem where "mem = rgb24_map blit"
  have u: "unat (64 :: 32 word) = 64" "unat (48 :: 32 word) = 48" by simp_all
  have "\<exists>m1. for_each (nv12_to_rgb24_rows fl buf 64 48 9) [0..<4] (mem, 0, 0, 576)
        = Inr (m1, 2 * 4 * unat (48 :: 32 word), 0 + 2 * 4 * unat (64 :: 32 word),
               576 + 4 * unat (64 :: 32 word))
      \<and> length m1 = length mem
      \<and> (\<forall>i<2 * 4. \<forall>j<9. \<forall>c<3.
            m1 ! (i * unat (48 :: 32 word) + 4 * j + c)
              = nv12_px fl buf (0 + i * unat (64 :: 32 word))
                  (576 + (i div 2) * unat (64 :: 32 word)) j c)"
    using lin(4) rgb(2)
    by (intro rows_effect [where K = 4]) (simp_all add: buf_def mem_def)
  then obtain m1 where
    m1: "for_each (nv12_to_rgb24_rows fl buf 64 48 9) [0..<4] (mem, 0, 0, 576)
        = Inr (m1, 384, 512, 832)"
    and len1: "length m1 = length mem"
    and px1: "\<And>i j c. i < 8 \<Longrightarrow> j < 9 \<Longrightarrow> c < 3 \<Longrightarrow>
        m1 ! (i * 48 + 4 * j + c) = nv12_px fl buf (i * 64) (576 + (i div 2) * 64) j c"
    by (auto simp: u)
  have "\<exists>m2. for_each (nv12_to_rgb24_last fl buf 512 832 384) [0..<9] m1 = Inr m2
      \<and> length m2 = length m1
      \<and> (\<forall>j<9. \<forall>c<3. m2 ! (384 + 4 * j + c) = nv12_px fl buf 512 832 j c)
      \<and> (\<forall>x<384. m2 ! x = m1 ! x)"
    using lin(4) rgb(2) len1
    by (intro last_row_effect [where W = 9]) (simp_all add: buf_def mem_def)
  then obtain m2 where
    m2: "for_each (nv12_to_rgb24_last fl buf 512 832 384) [0..<9] m1 = Inr m2"
    and len2: "length m2 = length m1"
    and px2: "\<And>j c. j < 9 \<Longrightarrow> c < 3 \<Longrightarrow> m2 ! (384 + 4 * j + c) = nv12_px fl buf 512 832 j c"
    and frame: "\<And>x. x < 384 \<Longrightarrow> m2 ! x = m1 ! x"
    by auto
  have run: "convert_nv12_to_rgb24 fl fb blit = Inr m2"
    using lin
    by (simp add: convert_nv12_to_rgb24_def fb rgb(1) sdiv_9_2 Let_def
        buf_def [symmetric] mem_def [symmetric] m1 m2)
  have px: "m2 ! (i * 48 + 4 * j + c) = nv12_px fl buf (i * 64) (576 + (i div 2) * 64) j c"
    if "i < 9" "j < 9" "c < 3" for i j c
  proof (cases "i < 8")
    case True
    then have "i * 48 + 4 * j + c < 384"
      using that by linarith
    with frame px1 [OF True that(2,3)] show ?thesis by simp
  next
    case False
    with that have "i = 8" by simp
    with px2 [OF that(2,3)] show ?thesis by simp
  qed
  show ?thesis
    using run len2 len1 px by (auto simp: buf_def mem_def)
qed

lemma fb_created_fields:
  assumes "igt_create_fb_with_bo_size dev width height fmt tiling bo_size bo_stride = Some (Inr fb)"
  shows "fb_width fb = width" "fb_height fb = height" "fb_drm_format fb = fmt"
    "fb_tiling fb = tiling"
  using assms
  by (auto simp: igt_create_fb_with_bo_size_def Let_def
      split: option.splits sum.splits if_splits)

lemma planar_fb_needs_i915:
  assumes "igt_create_fb_with_bo_size dev width height DRM_FORMAT_NV12 tiling bo_size bo_stride
             = Some (Inr fb)"
  shows "is_i915_device dev" "fresh_word dev = 0"
  using assms
  by (auto simp: igt_create_fb_with_bo_size_def lookup_nv12 create_bo_for_fb_def nv12_fields
      Let_def split: option.splits sum.splits if_splits prod.splits)

lemma mod_none: "igt_fb_mod_to_tiling LOCAL_DRM_FORMAT_MOD_NONE = Inr I915_TILING_NONE"
  "LOCAL_DRM_FORMAT_MOD_NONE = 0"
  by (simp_all add: igt_fb_mod_to_tiling_def modifier_values)

lemma linear_shadow_9x9:
  assumes "is_i915_device dev" "length offs = 4" "fresh_word dev = 0"
  shows "create_bo_for_fb dev 9 9 (Some nv12_desc) LOCAL_DRM_FORMAT_MOD_NONE 0 0 (Some offs)
    = Some (Inr \<lparr>bo = gem_create dev 896, size_ret = 896, stride_ret = 64,
                 offsets_ret = Some [0, 576, 0, 0], is_dumb_ret = False\<rparr>)"
proof -
  obtain a b c d where offs: "offs = [a, b, c, d]"
    using assms(2) by (auto simp: length_Suc_conv eval_nat_numeral)
  show ?thesis
    using assms(1,3)
    by (simp add: create_bo_for_fb_def nv12_fields
        calc_planar_nv12 [OF tile_size_linear tile_size_linear] mod_none(1) offs
        ALIGN_def Let_def)
qed

text \<open>
  Claim C8. For an NV12 framebuffer of width 9 and height 9 with Y tiling, the decoder
  reads from the linear shadow buffer that \<open>calc_fb_size_planar\<close> lays out (stride 64,
  chroma at offset 576, size 896). It returns without an access outside that buffer or
  outside the packed buffer, in the row pairs as well as in the last, odd row, and
  afterwards the three colour bytes of every pixel of the 9 by 9 image hold the
  conversion of the pixel's luma sample and of the chroma pair of its 2 by 2 block.
\<close>

theorem nv12_9x9_decode_in_bounds:
  assumes "igt_create_fb_with_bo_size dev 9 9 DRM_FORMAT_NV12 LOCAL_I915_FORMAT_MOD_Y_TILED 0 0
             = Some (Inr fb)"
    and "gem_create dev 896 \<noteq> 0"
    and "length (gem_mmap dev (gem_create dev 896) 896) = 896"
    and "length (linear_offsets blit0) = 4"
  shows "\<exists>blit. create_cairo_surface__convert fl dev 4096 blit0 fb = Some (Inr blit)
      \<and> linear_stride blit = 64 \<and> linear_size blit = 896
      \<and> linear_offsets blit = [0, 576, 0, 0]
      \<and> length (linear_map blit) = 896
      \<and> rgb24_stride blit = 48 \<and> length (rgb24_map blit) = 4096
      \<and> (\<forall>i<9. \<forall>j<9. \<forall>c<3. rgb24_map blit ! (i * 48 + 4 * j + c)
             = nv12_px fl (linear_map blit) (i * 64) (576 + (i div 2) * 64) j c)"
proof -
  note f = fb_created_fields [OF assms(1)]
  have i915: "is_i915_device dev" and fresh: "fresh_word dev = 0"
    by (rule planar_fb_needs_i915 [OF assms(1)])+
  define blit1 where "blit1 = blit0\<lparr>rgb24_stride := 48, rgb24_size := 4096,
      rgb24_map := replicate 4096 0\<rparr>"
  define blit2 where "blit2 = blit1\<lparr>linear_handle := gem_create dev 896,
      linear_size := 896, linear_stride := 64, linear_offsets := [0, 576, 0, 0],
      linear_map := gem_mmap dev (gem_create dev 896) 896\<rparr>"
  have lm: "setup_linear_mapping dev fb blit1 = Some (Inr blit2)"
    using assms(2,4)
    by (simp add: setup_linear_mapping_def f mod_y lookup_nv12 blit1_def blit2_def
        linear_shadow_9x9 [OF i915 _ fresh])
  have ccs: "create_cairo_surface__convert fl dev 4096 blit0 fb =
      (case convert_nv12_to_rgb24 fl fb blit2 of
         Inl e \<Rightarrow> Some (Inl e)
       | Inr mem \<Rightarrow> Some (Inr (blit2\<lparr>rgb24_map := mem\<rparr>)))"
    using lm
    by (simp add: create_cairo_surface__convert_def f ALIGN_def round_up_def Let_def
        blit1_def [symmetric])
  have b2: "linear_stride blit2 = 64" "linear_size blit2 = 896"
    "linear_offsets blit2 = [0, 576, 0, 0]" "length (linear_map blit2) = 896"
    "rgb24_stride blit2 = 48" "length (rgb24_map blit2) = 4096"
    using assms(3) by (simp_all add: blit2_def blit1_def)
  have "432 \<le> length (rgb24_map blit2)"
    by (simp add: b2)
  from decode_9x9 [OF f(1,2) b2(1-5) this, of fl] obtain mem' where
    dec: "convert_nv12_to_rgb24 fl fb blit2 = Inr mem'"
    and len: "length mem' = length (rgb24_map blit2)"
    and px: "\<forall>i<9. \<forall>j<9. \<forall>c<3. mem' ! (i * 48 + 4 * j + c)
             = nv12_px fl (linear_map blit2) (i * 64) (576 + (i div 2) * 64) j c"
    by blast
  show ?thesis
    using ccs dec len px b2
    by (intro exI [of _ "blit2\<lparr>rgb24_map := mem'\<rparr>"]) simp
qed


















lemma tile_size_abort_iff:
  "igt_get_fb_tile_size dev tiling b = Inl Assert_Failed \<longleftrightarrow>
     \<not> known_tiling tiling
     \<or> (tiling = LOCAL_I915_FORMAT_MOD_Yf_TILED \<and> require_intel dev \<and> \<not> known_bpp b)"
  by (auto simp: igt_get_fb_tile_size_def known_tiling_def known_bpp_def modifier_values)

lemma tile_size_table_bpp:
  assumes "b = 8 \<or> b = 16 \<or> b = 32"
  shows "igt_get_fb_tile_size dev tiling b = Inl Assert_Failed \<longleftrightarrow> \<not> known_tiling tiling"
  using assms by (auto simp: tile_size_abort_iff known_bpp_def)









lemma lookup_None_not_nv12: "lookup_drm_format fmt = None \<Longrightarrow> fmt \<noteq> DRM_FORMAT_NV12"
  using lookup_nv12 by auto

theorem nv12_9x9_decode_in_bounds_witness:
  "gem_create gen9_device 896 \<noteq> 0
   \<and> length (gem_mmap gen9_device (gem_create gen9_device 896) 896) = 896
   \<and> length (linear_offsets blank_blit) = 4
   \<and> (\<forall>fl :: 'f float_ops. \<exists>fb blit.
         igt_create_fb_with_bo_size gen9_device 9 9 DRM_FORMAT_NV12
           LOCAL_I915_FORMAT_MOD_Y_TILED 0 0 = Some (Inr fb)
         \<and> create_cairo_surface__convert fl gen9_device 4096 blank_blit fb = Some (Inr blit)
         \<and> linear_size blit = 896 \<and> length (rgb24_map blit) = 4096
         \<and> rgb24_map blit ! (8 * 48 + 4 * 8 + 2)
             = nv12_px fl (linear_map blit) (8 * 64) (576 + (8 div 2) * 64) 8 2)"
proof -
  have a: "gem_create gen9_device 896 \<noteq> 0"
    by (simp add: gen9_fields)
  have b: "length (gem_mmap gen9_device (gem_create gen9_device 896) 896) = 896"
    by (simp add: gen9_device_def gen3_device_def)
  have c: "length (linear_offsets blank_blit) = 4"
    by (simp add: blank_blit_def)
  from create_nv12_9x9 obtain fb where
    fb: "igt_create_fb_with_bo_size gen9_device 9 9 DRM_FORMAT_NV12
           LOCAL_I915_FORMAT_MOD_Y_TILED 0 0 = Some (Inr fb)"
    by blast
  have "\<exists>blit. create_cairo_surface__convert fl gen9_device 4096 blank_blit fb = Some (Inr blit)
         \<and> linear_size blit = 896 \<and> length (rgb24_map blit) = 4096
         \<and> rgb24_map blit ! (8 * 48 + 4 * 8 + 2)
             = nv12_px fl (linear_map blit) (8 * 64) (576 + (8 div 2) * 64) 8 2"
    for fl :: "'f float_ops"
  proof -
    from nv12_9x9_decode_in_bounds [OF fb a b c, of fl] obtain blit where
      blit: "create_cairo_surface__convert fl gen9_device 4096 blank_blit fb = Some (Inr blit)"
        "linear_size blit = 896" "length (rgb24_map blit) = 4096"
      and px: "\<forall>i<9. \<forall>j<9. \<forall>c<3. rgb24_map blit ! (i * 48 + 4 * j + c)
             = nv12_px fl (linear_map blit) (i * 64) (576 + (i div 2) * 64) j c"
      by blast
    have "(8::nat) < 9" "(2::nat) < 3" by simp_all
    with px have "rgb24_map blit ! (8 * 48 + 4 * 8 + 2)
             = nv12_px fl (linear_map blit) (8 * 64) (576 + (8 div 2) * 64) 8 2"
      by blast
    with blit show ?thesis by blast
  qed
  with a b c fb show ?thesis by blast
qed

















end
